theory Spec2Isabelle
  imports Complex_Main "HOL-Library.Sublist" "HOL-Library.Log_Nat"
begin

section \<open>Python values used by topic\_notifier.py\<close>

text \<open>
  The program is one Python module, \<^verbatim>\<open>src/topic_notifier.py\<close>.  Its engine is three
  methods of the class \<^verbatim>\<open>TopicNotifier\<close>: \<^verbatim>\<open>parse_ros_topic_statistics\<close>,
  \<^verbatim>\<open>load_hz_range_config_from_files\<close> and \<^verbatim>\<open>check_topic_frequencies\<close>.  They are
  embedded below as HOL functions.  A Python \<^verbatim>\<open>str\<close> is a \<^typ>\<open>string\<close> whose characters
  are the code points 0..255; a raised exception is the \<open>Inl\<close> branch of a sum; the calls of
  the logger are kept as a list of log events.
\<close>

subsection \<open>Floats\<close>

text \<open>
  A Python \<^verbatim>\<open>float\<close> is an IEEE-754 double: a finite value (kept as the rational it
  denotes), negative zero, an infinity or not-a-number.  \<open>Finite 0\<close> is positive zero.
\<close>

datatype pyfloat = Finite rat | NegZero | PosInf | NegInf | NaN

text \<open>The place of a float in the order; NaN has none.\<close>

fun float_key :: "pyfloat \<Rightarrow> (int \<times> rat) option" where
  "float_key (Finite q) = Some (0, q)"
| "float_key NegZero = Some (0, 0)"
| "float_key PosInf = Some (1, 0)"
| "float_key NegInf = Some (-1, 0)"
| "float_key NaN = None"

text \<open>Python's \<^verbatim>\<open>x <= y\<close> on floats: false as soon as one side is NaN.\<close>

definition float_le :: "pyfloat \<Rightarrow> pyfloat \<Rightarrow> bool" where
  "float_le x y =
     (case (float_key x, float_key y) of
        (Some (i, a), Some (j, b)) \<Rightarrow> i < j \<or> (i = j \<and> a \<le> b)
      | _ \<Rightarrow> False)"

text \<open>Python's \<^verbatim>\<open>x > y\<close> on floats.\<close>

definition float_gt :: "pyfloat \<Rightarrow> pyfloat \<Rightarrow> bool" where
  "float_gt x y =
     (case (float_key x, float_key y) of
        (Some (i, a), Some (j, b)) \<Rightarrow> j < i \<or> (i = j \<and> b < a)
      | _ \<Rightarrow> False)"

definition pow2 :: "int \<Rightarrow> rat" where
  "pow2 p = (if 0 \<le> p then 2 ^ nat p else 1 / 2 ^ nat (- p))"

definition pow10 :: "int \<Rightarrow> rat" where
  "pow10 p = (if 0 \<le> p then 10 ^ nat p else 1 / 10 ^ nat (- p))"

definition round_half_even :: "rat \<Rightarrow> int" where
  "round_half_even r =
     (let f = \<lfloor>r\<rfloor>; d = r - of_int f
      in if d < 1 / 2 then f else if 1 / 2 < d then f + 1
         else if even f then f else f + 1)"

text \<open>For \<open>q > 0\<close>: the \<open>e\<close> with \<open>2 ^ e \<le> q < 2 ^ (e + 1)\<close>.\<close>

definition floor_log2 :: "rat \<Rightarrow> int" where
  "floor_log2 q =
     (let (a, b) = quotient_of q; e = bitlen a - bitlen b
      in if pow2 e \<le> q then e else e - 1)"

text \<open>For \<open>q > 0\<close>: the \<open>k\<close> with \<open>10 ^ k \<le> q < 10 ^ (k + 1)\<close>.\<close>

definition floor_log10 :: "rat \<Rightarrow> int" where
  "floor_log10 q =
     (let (a, b) = quotient_of q;
          k = int (floorlog 10 (nat a)) - int (floorlog 10 (nat b))
      in if pow10 k \<le> q then k else k - 1)"

text \<open>
  Rounding of a positive rational to the nearest double, ties to the even significand
  (53 bits, least exponent \<open>-1074\<close>).  A result of \<open>2 ^ 1024\<close> or more stands for overflow.
\<close>

definition round_to_double :: "rat \<Rightarrow> rat" where
  "round_to_double q =
     (let p = max (floor_log2 q - 52) (- 1074)
      in of_int (round_half_even (q / pow2 p)) * pow2 p)"

text \<open>
  The float a decimal numeral of a string denotes (sign and magnitude); a magnitude too
  large gives an infinity, as \<^verbatim>\<open>float('1e400')\<close> does.
\<close>

definition float_of_decimal :: "bool \<Rightarrow> rat \<Rightarrow> pyfloat" where
  "float_of_decimal neg q =
     (if q = 0 then (if neg then NegZero else Finite 0)
      else let v = round_to_double q
           in if pow2 1024 \<le> v then (if neg then NegInf else PosInf)
              else if v = 0 then (if neg then NegZero else Finite 0)
              else Finite (if neg then - v else v))"

subsection \<open>Strings\<close>

definition digit_char :: "nat \<Rightarrow> char" where
  "digit_char d = char_of (48 + d)"

text \<open>\<^verbatim>\<open>str(n)\<close> for a natural number.\<close>

fun str_nat :: "nat \<Rightarrow> string" where
  "str_nat n = (if n < 10 then [digit_char n] else str_nat (n div 10) @ [digit_char (n mod 10)])"

declare str_nat.simps [simp del]

text \<open>\<^verbatim>\<open>ord(c)\<close>: the code point of a character.\<close>

definition code_point :: "char \<Rightarrow> nat" where
  "code_point c = of_char c"

text \<open>What \<^verbatim>\<open>\\d\<close> matches among the code points 0..255: the digits 0 to 9.\<close>

definition is_digit :: "char \<Rightarrow> bool" where
  "is_digit c = (48 \<le> code_point c \<and> code_point c \<le> 57)"

definition digit_val :: "char \<Rightarrow> nat" where
  "digit_val c = code_point c - 48"

text \<open>The number a run of decimal digits denotes (leading zeros allowed, empty run 0).\<close>

definition nat_of_digits :: "string \<Rightarrow> nat" where
  "nat_of_digits ds = foldl (\<lambda>a c. 10 * a + digit_val c) 0 ds"

text \<open>
  \<^verbatim>\<open>str.isspace\<close> on the code points 0..255: tab to carriage return, the four separators
  0x1C..0x1F, space, NEL (0x85) and the no-break space (0xA0).
\<close>

definition is_space :: "char \<Rightarrow> bool" where
  "is_space c =
     (let n = code_point c
      in (9 \<le> n \<and> n \<le> 13) \<or> (28 \<le> n \<and> n \<le> 32) \<or> n = 133 \<or> n = 160)"

text \<open>\<^verbatim>\<open>s.strip()\<close>: leading and trailing whitespace removed.\<close>

definition strip :: "string \<Rightarrow> string" where
  "strip s = rev (dropWhile is_space (rev (dropWhile is_space s)))"

subsection \<open>The text of a float: \<^verbatim>\<open>repr\<close>, which an f-string uses\<close>

text \<open>
  CPython prints the shortest digit string that reads back as the same double, and of two
  such strings the one nearer to the value.  \<open>try_digits q k n\<close> looks for it among the
  numerals of \<open>n\<close> digits, for \<open>10 ^ (k - 1) \<le> q < 10 ^ k\<close>; it returns the digits and the
  position of the decimal point.
\<close>

definition try_digits :: "rat \<Rightarrow> int \<Rightarrow> nat \<Rightarrow> (string \<times> int) option" where
  "try_digits q k n =
     (let scale = pow10 (k - int n);
          lo = \<lfloor>q / scale\<rfloor>;
          hi = lo + 1;
          oklo = (round_to_double (of_int lo * scale) = q);
          okhi = (round_to_double (of_int hi * scale) = q);
          dlo = q - of_int lo * scale;
          dhi = of_int hi * scale - q;
          c = (if oklo \<and> okhi then (if dlo < dhi \<or> (dlo = dhi \<and> even lo) then lo else hi)
               else if oklo then lo else hi)
      in if oklo \<or> okhi
         then (if c = 10 ^ n then Some (''1'', k + 1) else Some (str_nat (nat c), k))
         else None)"

text \<open>The first length, in the order given, at which such a numeral exists.\<close>

fun first_digits :: "rat \<Rightarrow> int \<Rightarrow> nat list \<Rightarrow> (string \<times> int) option" where
  "first_digits q k [] = None"
| "first_digits q k (n # ns) =
     (case try_digits q k n of Some r \<Rightarrow> Some r | None \<Rightarrow> first_digits q k ns)"

text \<open>
  Seventeen digits tell any two doubles apart, so the search over 1 to 17 digits finds a
  numeral for every double; the last case is there for the rationals that are no doubles.
\<close>

definition shortest_digits :: "rat \<Rightarrow> string \<times> int" where
  "shortest_digits q =
     (let k = floor_log10 q + 1
      in case first_digits q k [1 ..< 18] of
           Some r \<Rightarrow> r
         | None \<Rightarrow> (str_nat (nat (round_half_even (q / pow10 (k - 17)))), k))"

text \<open>
  The layout of \<^verbatim>\<open>repr\<close>: exponent form when the decimal point is at \<open>-4\<close> or before,
  or after 16 digits; otherwise positional, with \<^verbatim>\<open>.0\<close> added to a whole number.
\<close>

definition format_repr :: "string \<Rightarrow> int \<Rightarrow> string" where
  "format_repr ds decpt =
     (let n = int (length ds)
      in if decpt \<le> - 4 \<or> 16 < decpt
         then (let e = decpt - 1
               in take 1 ds @ (if 1 < n then ''.'' @ drop 1 ds else [])
                  @ ''e'' @ (if e < 0 then ''-'' else ''+'')
                  @ (if \<bar>e\<bar> < 10 then ''0'' else []) @ str_nat (nat \<bar>e\<bar>))
         else if decpt \<le> 0 then ''0.'' @ replicate (nat (- decpt)) CHR ''0'' @ ds
         else if n \<le> decpt then ds @ replicate (nat (decpt - n)) CHR ''0'' @ ''.0''
         else take (nat decpt) ds @ ''.'' @ drop (nat decpt) ds)"

fun float_repr :: "pyfloat \<Rightarrow> string" where
  "float_repr NaN = ''nan''"
| "float_repr PosInf = ''inf''"
| "float_repr NegInf = ''-inf''"
| "float_repr NegZero = ''-0.0''"
| "float_repr (Finite q) =
     (if q = 0 then ''0.0''
      else (if q < 0 then ''-'' else [])
           @ (case shortest_digits \<bar>q\<bar> of (ds, decpt) \<Rightarrow> format_repr ds decpt))"

declare float_repr.simps [simp del]

section \<open>The validator: \<^verbatim>\<open>check_topic_frequencies\<close>\<close>

text \<open>
  A rule's range is the dict \<^verbatim>\<open>{'min': ..., 'max': ...}\<close> (the fields are named
  \<open>min_hz\<close> and \<open>max_hz\<close> here, \<open>min\<close> and \<open>max\<close> being taken).  It always has its two
  keys, so it is truthy wherever the code tests \<^verbatim>\<open>if found_config\<close>.
\<close>

record hz_config =
  min_hz :: pyfloat
  max_hz :: pyfloat

text \<open>
  A compiled pattern, as far as the program uses it: its source text
  (\<^verbatim>\<open>pattern.pattern\<close>) and the set of strings it matches in full
  (\<^verbatim>\<open>pattern.fullmatch(s)\<close> is not None).
\<close>

record pattern_obj =
  pattern :: string
  fullmatch :: "string \<Rightarrow> bool"

text \<open>One parsed statistic: the dict \<^verbatim>\<open>parse_ros_topic_statistics\<close> appends.\<close>

record stat =
  topic :: string
  message_count :: int
  message_frequency :: pyfloat

text \<open>
  One validation result: the dict \<^verbatim>\<open>result_entry\<close>.  Its key \<^verbatim>\<open>'topic'\<close> is the
  field \<open>result_topic\<close>.
\<close>

record result_entry =
  result_topic :: string
  frequency :: pyfloat
  expected_range :: string
  status :: string
  config_source :: string

text \<open>
  The inner loop over \<^verbatim>\<open>regex_configs_list\<close>, with its \<^verbatim>\<open>break\<close> at the first full
  match; it returns \<^verbatim>\<open>(found_config, config_source_info)\<close>, which start as
  \<^verbatim>\<open>(None, "N/A")\<close>.
\<close>

fun scan_regex_configs ::
  "(pattern_obj \<times> hz_config) list \<Rightarrow> string \<Rightarrow> hz_config option \<times> string" where
  "scan_regex_configs [] topic_name = (None, ''N/A'')"
| "scan_regex_configs ((p, config) # rest) topic_name =
     (if fullmatch p topic_name then (Some config, ''Regex match: '' @ pattern p)
      else scan_regex_configs rest topic_name)"

definition find_config ::
  "(string \<rightharpoonup> hz_config) \<Rightarrow> (pattern_obj \<times> hz_config) list \<Rightarrow> string
    \<Rightarrow> hz_config option \<times> string" where
  "find_config exact_match_configs regex_configs_list topic_name =
     (case exact_match_configs topic_name of
        Some config \<Rightarrow> (Some config, ''Exact match: '' @ topic_name)
      | None \<Rightarrow> scan_regex_configs regex_configs_list topic_name)"

text \<open>The body of the loop over \<^verbatim>\<open>parsed_stats\<close>.\<close>

definition check_one ::
  "(string \<rightharpoonup> hz_config) \<Rightarrow> (pattern_obj \<times> hz_config) list \<Rightarrow> stat \<Rightarrow> result_entry" where
  "check_one exact_match_configs regex_configs_list st =
     (let topic_name = topic st;
          freq = message_frequency st
      in case find_config exact_match_configs regex_configs_list topic_name of
           (None, config_source_info) \<Rightarrow>
             \<lparr>result_topic = topic_name, frequency = freq, expected_range = ''N/A'',
              status = ''Config Not Found'', config_source = ''N/A''\<rparr>
         | (Some found_config, config_source_info) \<Rightarrow>
             \<lparr>result_topic = topic_name, frequency = freq,
              expected_range =
                ''['' @ float_repr (min_hz found_config) @ '', ''
                      @ float_repr (max_hz found_config) @ '']'',
              status =
                (if float_le (min_hz found_config) freq \<and> float_le freq (max_hz found_config)
                 then ''OK'' else ''NG''),
              config_source = config_source_info\<rparr>)"

definition check_topic_frequencies ::
  "stat list \<Rightarrow> (string \<rightharpoonup> hz_config) \<Rightarrow> (pattern_obj \<times> hz_config) list
    \<Rightarrow> result_entry list" where
  "check_topic_frequencies parsed_stats exact_match_configs regex_configs_list =
     map (check_one exact_match_configs regex_configs_list) parsed_stats"

section \<open>Exceptions\<close>

text \<open>
  The exceptions the engine can meet.  \<open>ReError\<close> is \<^verbatim>\<open>re.error\<close>; \<open>OtherError\<close> stands for
  what \<^verbatim>\<open>open\<close> raises apart from \<^verbatim>\<open>FileNotFoundError\<close> (a permission or decoding
  error).
\<close>

datatype py_exc =
  ValueError | TypeError | KeyError | IndexError | AttributeError | OverflowError | RecursionError
  | ReError
  | FileNotFoundError | YAMLError | OtherError

section \<open>\<^verbatim>\<open>float(...)\<close> of a string\<close>

definition newline :: char where
  "newline = CHR 0x0A"

definition backslash :: char where
  "backslash = CHR 0x5C"

definition esc_char :: char where
  "esc_char = CHR 0x1B"

text \<open>
  The whitespace \<^verbatim>\<open>float\<close> removes around its argument: tab to carriage return, space,
  and (turned into spaces first) NEL and the no-break space.  Unlike \<^verbatim>\<open>str.strip\<close> it
  keeps 0x1C..0x1F.
\<close>

definition is_float_space :: "char \<Rightarrow> bool" where
  "is_float_space c =
     (let n = code_point c in (9 \<le> n \<and> n \<le> 13) \<or> n = 32 \<or> n = 133 \<or> n = 160)"

definition float_strip :: "string \<Rightarrow> string" where
  "float_strip s = rev (dropWhile is_float_space (rev (dropWhile is_float_space s)))"

text \<open>
  Underscores may stand between two digits only (PEP 515); they are removed.  The first
  argument is the previous character.  A string without underscores comes back unchanged.
\<close>

fun remove_underscores :: "char option \<Rightarrow> string \<Rightarrow> string option" where
  "remove_underscores prev [] = (if prev = Some CHR ''_'' then None else Some [])"
| "remove_underscores prev (c # cs) =
     (if c = CHR ''_''
      then (case prev of
              Some d \<Rightarrow> if is_digit d then remove_underscores (Some c) cs else None
            | None \<Rightarrow> None)
      else if prev = Some CHR ''_'' \<and> \<not> is_digit c then None
      else map_option ((#) c) (remove_underscores (Some c) cs))"

definition lower_char :: "char \<Rightarrow> char" where
  "lower_char c =
     (if 65 \<le> code_point c \<and> code_point c \<le> 90 then char_of (code_point c + 32) else c)"

text \<open>An optional sign: whether it is a minus, and the rest.\<close>

fun split_sign :: "string \<Rightarrow> bool \<times> string" where
  "split_sign [] = (False, [])"
| "split_sign (c # cs) =
     (if c = CHR ''-'' then (True, cs) else if c = CHR ''+'' then (False, cs) else (False, c # cs))"

text \<open>
  An optional exponent part \<^verbatim>\<open>e[+-]digits\<close>: the exponent and the rest, or \<open>None\<close> when an
  \<^verbatim>\<open>e\<close> is followed by no digit.
\<close>

fun parse_exponent :: "string \<Rightarrow> (int \<times> string) option" where
  "parse_exponent [] = Some (0, [])"
| "parse_exponent (c # cs) =
     (if c = CHR ''e'' \<or> c = CHR ''E''
      then (case split_sign cs of
              (neg, t) \<Rightarrow>
                (let ed = takeWhile is_digit t
                 in if ed = [] then None
                    else Some ((if neg then - int (nat_of_digits ed) else int (nat_of_digits ed)),
                               dropWhile is_digit t)))
      else Some (0, c # cs))"

text \<open>
  The unsigned number grammar of \<^verbatim>\<open>float\<close>: digits, an optional point and digits (a digit
  on one side at least), an optional exponent, and nothing after.  The result is the
  exact value of the numeral.
\<close>

definition parse_decimal :: "string \<Rightarrow> rat option" where
  "parse_decimal s =
     (let ip = takeWhile is_digit s;
          r = dropWhile is_digit s;
          (fp, r') = (case r of
                        c # t \<Rightarrow> if c = CHR ''.'' then (takeWhile is_digit t, dropWhile is_digit t)
                                 else ([], r)
                      | [] \<Rightarrow> ([], r))
      in if ip = [] \<and> fp = [] then None
         else case parse_exponent r' of
                None \<Rightarrow> None
              | Some (e, rest) \<Rightarrow>
                  if rest \<noteq> [] then None
                  else Some (of_nat (nat_of_digits (ip @ fp)) * pow10 (e - int (length fp))))"

text \<open>\<^verbatim>\<open>float(s)\<close> for a string; \<open>None\<close> is \<^verbatim>\<open>ValueError\<close>.\<close>

definition float_of_str :: "string \<Rightarrow> pyfloat option" where
  "float_of_str s0 =
     (case remove_underscores None (float_strip s0) of
        None \<Rightarrow> None
      | Some s \<Rightarrow>
          (case split_sign s of
             (neg, t) \<Rightarrow>
               (let low = map lower_char t
                in if low = ''inf'' \<or> low = ''infinity'' then Some (if neg then NegInf else PosInf)
                   else if low = ''nan'' then Some NaN
                   else map_option (float_of_decimal neg) (parse_decimal t))))"

section \<open>The extractor: \<^verbatim>\<open>parse_ros_topic_statistics\<close>\<close>

subsection \<open>\<^verbatim>\<open>ansi_escape_pattern.sub('', msg_str)\<close>\<close>

text \<open>
  The pattern is \<^verbatim>\<open>\x1B\[[0-?]*[ -/]*[@-~]\<close>: ESC, an opening bracket, parameter
  characters 0x30..0x3F, intermediate characters 0x20..0x2F, one final character
  0x40..0x7E.  The three classes are disjoint, so the greedy runs never give a character
  back: the match at a position, if there is one, is the one found by taking each run whole.
\<close>

definition is_param :: "char \<Rightarrow> bool" where
  "is_param c = (48 \<le> code_point c \<and> code_point c \<le> 63)"

definition is_inter :: "char \<Rightarrow> bool" where
  "is_inter c = (32 \<le> code_point c \<and> code_point c \<le> 47)"

definition is_final :: "char \<Rightarrow> bool" where
  "is_final c = (64 \<le> code_point c \<and> code_point c \<le> 126)"

text \<open>After \<^verbatim>\<open>ESC [\<close>: the text that follows the escape sequence, if one is there.\<close>

definition csi_rest :: "string \<Rightarrow> string option" where
  "csi_rest r =
     (case dropWhile is_inter (dropWhile is_param r) of
        [] \<Rightarrow> None
      | c # rest \<Rightarrow> if is_final c then Some rest else None)"

text \<open>A match of the pattern at the head of the text: what follows it.\<close>

definition match_ansi :: "string \<Rightarrow> string option" where
  "match_ansi s =
     (case s of
        c # d # r \<Rightarrow> if c = esc_char \<and> d = CHR ''['' then csi_rest r else None
      | _ \<Rightarrow> None)"

lemma csi_rest_length: "csi_rest r = Some rest \<Longrightarrow> length rest < Suc (length r)"
proof -
  assume a: "csi_rest r = Some rest"
  have "length (dropWhile is_inter (dropWhile is_param r)) \<le> length r"
    by (meson length_dropWhile_le le_trans)
  with a show ?thesis
    by (auto simp: csi_rest_def split: list.splits if_splits)
qed

lemma match_ansi_length: "match_ansi s = Some rest \<Longrightarrow> length rest < length s"
  by (auto simp: match_ansi_def split: list.splits if_splits dest: csi_rest_length)

text \<open>
  \<^verbatim>\<open>sub('', s)\<close>: the matches are found from left to right, each search starting where
  the last match ended, and removed.
\<close>

function strip_ansi :: "string \<Rightarrow> string" where
  "strip_ansi [] = []"
| "strip_ansi (c # cs) =
     (case match_ansi (c # cs) of
        Some rest \<Rightarrow> strip_ansi rest
      | None \<Rightarrow> c # strip_ansi cs)"
  by pat_completeness auto
termination
  by (relation "measure length") (auto dest: match_ansi_length)

subsection \<open>\<^verbatim>\<open>block_pattern.finditer(cleaned_str)\<close>\<close>

text \<open>
  The pattern is
  \<^verbatim>\<open>Statistics for topic (.+?)\nMessage count = (\d+), Message frequency = ([\d.]+|nan)\<close>.
  The dot matches no newline, so group 1 is the text up to the first newline, and must not
  be empty; the digits of group 2 are followed by a comma, so the run is taken whole;
  group 3 ends the pattern, so its greedy run is taken whole, and \<^verbatim>\<open>nan\<close> is tried only
  when the run is empty.
\<close>

fun strip_prefix :: "string \<Rightarrow> string \<Rightarrow> string option" where
  "strip_prefix [] s = Some s"
| "strip_prefix (p # ps) [] = None"
| "strip_prefix (p # ps) (c # cs) = (if p = c then strip_prefix ps cs else None)"

text \<open>The three groups of a match.\<close>

record block_match =
  group1 :: string
  group2 :: string
  group3 :: string

text \<open>A match of the block pattern at the head of the text, and what follows it.\<close>

definition match_block :: "string \<Rightarrow> (block_match \<times> string) option" where
  "match_block s =
     (case strip_prefix ''Statistics for topic '' s of
        None \<Rightarrow> None
      | Some r1 \<Rightarrow>
          (let name = takeWhile (\<lambda>c. c \<noteq> newline) r1
           in if name = [] then None
              else case strip_prefix (newline # ''Message count = '') (dropWhile (\<lambda>c. c \<noteq> newline) r1) of
                     None \<Rightarrow> None
                   | Some r2 \<Rightarrow>
                       (let cnt = takeWhile is_digit r2
                        in if cnt = [] then None
                           else case strip_prefix '', Message frequency = '' (dropWhile is_digit r2) of
                                  None \<Rightarrow> None
                                | Some r3 \<Rightarrow>
                                    (let fr = takeWhile (\<lambda>c. is_digit c \<or> c = CHR ''.'') r3
                                     in if fr \<noteq> []
                                        then Some (\<lparr>group1 = name, group2 = cnt, group3 = fr\<rparr>,
                                                   dropWhile (\<lambda>c. is_digit c \<or> c = CHR ''.'') r3)
                                        else case strip_prefix ''nan'' r3 of
                                               None \<Rightarrow> None
                                             | Some r4 \<Rightarrow>
                                                 Some (\<lparr>group1 = name, group2 = cnt, group3 = ''nan''\<rparr>, r4)))))"

lemma strip_prefix_length: "strip_prefix p s = Some r \<Longrightarrow> length r \<le> length s"
  by (induction p s rule: strip_prefix.induct) (auto split: if_splits)

lemma strip_prefix_length_Cons: "strip_prefix (p # ps) s = Some r \<Longrightarrow> length r < length s"
  by (cases s) (auto split: if_splits dest: strip_prefix_length)

lemma match_block_length: "match_block s = Some (m, rest) \<Longrightarrow> length rest < length s"
proof -
  assume a: "match_block s = Some (m, rest)"
  then obtain r1 where r1: "strip_prefix ''Statistics for topic '' s = Some r1"
    by (auto simp: match_block_def split: option.splits)
  have l1: "length r1 < length s"
    using r1 by (rule strip_prefix_length_Cons)
  from a r1 obtain r2 where
    r2: "strip_prefix (newline # ''Message count = '') (dropWhile (\<lambda>c. c \<noteq> newline) r1) = Some r2"
    by (auto simp: match_block_def Let_def split: option.splits if_splits)
  have l2: "length r2 < length r1"
    using strip_prefix_length_Cons [OF r2] length_dropWhile_le [of "\<lambda>c. c \<noteq> newline" r1]
    by linarith
  from a r1 r2 obtain r3 where
    r3: "strip_prefix '', Message frequency = '' (dropWhile is_digit r2) = Some r3"
    by (auto simp: match_block_def Let_def split: option.splits if_splits)
  have l3: "length r3 < length r2"
    using strip_prefix_length_Cons [OF r3] length_dropWhile_le [of is_digit r2]
    by linarith
  have "length rest \<le> length r3"
    using a r1 r2 r3 length_dropWhile_le [of "\<lambda>c. is_digit c \<or> c = CHR ''.''" r3]
    by (auto simp: match_block_def Let_def split: option.splits if_splits
             dest: strip_prefix_length)
  with l1 l2 l3 show ?thesis by linarith
qed

text \<open>The matches, from left to right; the search goes on where the last match ended.\<close>

function finditer :: "string \<Rightarrow> block_match list" where
  "finditer [] = []"
| "finditer (c # cs) =
     (case match_block (c # cs) of
        Some (m, rest) \<Rightarrow> m # finditer rest
      | None \<Rightarrow> finditer cs)"
  by pat_completeness auto
termination
  by (relation "measure length") (auto dest: match_block_length)

subsection \<open>The loop over the matches\<close>

text \<open>
  \<^verbatim>\<open>int(s)\<close> for a run of digits.  CPython 3.11, and the patched releases of 3.7 to 3.10,
  refuse a decimal text of more than 4300 digits (the default of
  \<^verbatim>\<open>sys.set_int_max_str_digits\<close>) with \<^verbatim>\<open>ValueError\<close>; \<open>None\<close> is that exception.
\<close>

definition int_max_str_digits :: nat where
  "int_max_str_digits = 4300"

definition int_of_digits :: "string \<Rightarrow> int option" where
  "int_of_digits ds =
     (if int_max_str_digits < length ds then None else Some (int (nat_of_digits ds)))"

text \<open>
  The body of the loop: \<^verbatim>\<open>strip\<close> of group 1, \<^verbatim>\<open>int\<close> of group 2, \<^verbatim>\<open>float\<close> of group 3
  unless it is \<^verbatim>\<open>nan\<close>.  \<^verbatim>\<open>float\<close> raises \<^verbatim>\<open>ValueError\<close> on a token it cannot read, and
  nothing in the function catches it.
\<close>

definition stat_of_match :: "block_match \<Rightarrow> py_exc + stat" where
  "stat_of_match m =
     (let topic_name = strip (group1 m)
      in case int_of_digits (group2 m) of
           None \<Rightarrow> Inl ValueError
         | Some count \<Rightarrow>
             (let freq_str = group3 m
              in if freq_str = ''nan''
                 then Inr \<lparr>topic = topic_name, message_count = count, message_frequency = NaN\<rparr>
                 else case float_of_str freq_str of
                        None \<Rightarrow> Inl ValueError
                      | Some f \<Rightarrow>
                          Inr \<lparr>topic = topic_name, message_count = count, message_frequency = f\<rparr>))"

text \<open>The \<^verbatim>\<open>for\<close> loop with its \<^verbatim>\<open>results.append\<close>: the first exception ends it.\<close>

fun collect_stats :: "block_match list \<Rightarrow> py_exc + stat list" where
  "collect_stats [] = Inr []"
| "collect_stats (m # ms) =
     (case stat_of_match m of
        Inl e \<Rightarrow> Inl e
      | Inr st \<Rightarrow> (case collect_stats ms of Inl e \<Rightarrow> Inl e | Inr sts \<Rightarrow> Inr (st # sts)))"

definition parse_ros_topic_statistics :: "string \<Rightarrow> py_exc + stat list" where
  "parse_ros_topic_statistics msg_str = collect_stats (finditer (strip_ansi msg_str))"

section \<open>Regular expressions\<close>

text \<open>
  The loader calls \<^verbatim>\<open>re.compile(name)\<close> and the validator \<^verbatim>\<open>pattern.fullmatch(topic)\<close>.
  The loader below takes the compiler as a parameter \<open>re_compile\<close>: it maps a pattern text
  to the exception \<^verbatim>\<open>re.compile\<close> raises on it (\<open>Inl\<close>), or to the set of strings the
  compiled pattern matches in full (\<open>Inr\<close>).  The exception is \<^verbatim>\<open>re.error\<close> for a pattern
  that is not well formed, but not always: \<^verbatim>\<open>re.compile('/a{4294967296}')\<close> raises
  \<^verbatim>\<open>OverflowError\<close>, and a pattern nested too deep \<^verbatim>\<open>RecursionError\<close>.  Every theorem
  about the loader holds for every such function.
\<close>

type_synonym compiler = "string \<Rightarrow> py_exc + (string \<Rightarrow> bool)"

text \<open>
  \<open>mini_compile\<close> is one such function, used at concrete inputs.  It reads the patterns
  built from literal characters, the dot, \<^verbatim>\<open>\d\<close>, a backslash before a punctuation
  character, the repetitions \<^verbatim>\<open>*\<close>, \<^verbatim>\<open>+\<close>, \<^verbatim>\<open>?\<close> (also in their lazy form), \<^verbatim>\<open>|\<close> and
  plain groups.  On these it fails with \<^verbatim>\<open>re.error\<close> where \<^verbatim>\<open>re.compile\<close> does (nothing to
  repeat, multiple repeat, unbalanced parenthesis, a backslash at the end) and otherwise
  gives the full matches of Python's pattern.  It also answers \<^verbatim>\<open>re.error\<close> for every
  pattern with a construct outside this fragment (classes, braces, anchors, \<^verbatim>\<open>(?\<close>,
  possessive repetition, other escapes), where it says nothing about Python.
\<close>

datatype regex =
  Zero | Eps | Atom "char \<Rightarrow> bool" | Seq regex regex | Alt regex regex | Star regex

fun nullable :: "regex \<Rightarrow> bool" where
  "nullable Zero = False"
| "nullable Eps = True"
| "nullable (Atom P) = False"
| "nullable (Seq r s) = (nullable r \<and> nullable s)"
| "nullable (Alt r s) = (nullable r \<or> nullable s)"
| "nullable (Star r) = True"

text \<open>The derivative: what is left to match after the character \<open>c\<close>.\<close>

fun deriv :: "char \<Rightarrow> regex \<Rightarrow> regex" where
  "deriv c Zero = Zero"
| "deriv c Eps = Zero"
| "deriv c (Atom P) = (if P c then Eps else Zero)"
| "deriv c (Seq r s) =
     (if nullable r then Alt (Seq (deriv c r) s) (deriv c s) else Seq (deriv c r) s)"
| "deriv c (Alt r s) = Alt (deriv c r) (deriv c s)"
| "deriv c (Star r) = Seq (deriv c r) (Star r)"

definition regex_fullmatch :: "regex \<Rightarrow> string \<Rightarrow> bool" where
  "regex_fullmatch r s = nullable (foldl (\<lambda>r c. deriv c r) r s)"

text \<open>
  The parser reads the pattern one character at a time.  A frame holds the finished
  alternatives of a group and the items of the alternative being read, last item first.
  The stack has one frame for each open parenthesis, and one for the whole pattern.
\<close>

datatype repeat_state = Can_repeat | Repeated | Lazy | Nothing_to_repeat

record parser_state =
  frames :: "(regex list \<times> regex list) list"
  repeat :: repeat_state
  escaped :: bool

definition mk_seq :: "regex list \<Rightarrow> regex" where
  "mk_seq rev_items = foldl (\<lambda>r item. Seq item r) Eps rev_items"

definition mk_alt :: "regex list \<Rightarrow> regex" where
  "mk_alt branches = foldr Alt (butlast branches) (last branches)"

text \<open>ASCII punctuation: the characters a backslash makes literal.\<close>

definition is_punct :: "char \<Rightarrow> bool" where
  "is_punct c =
     (let n = code_point c
      in (33 \<le> n \<and> n \<le> 47) \<or> (58 \<le> n \<and> n \<le> 64) \<or> (91 \<le> n \<and> n \<le> 96) \<or> (123 \<le> n \<and> n \<le> 126))"

definition push_item :: "regex \<Rightarrow> parser_state \<Rightarrow> parser_state option" where
  "push_item a st =
     (case frames st of
        [] \<Rightarrow> None
      | (alts, items) # outer \<Rightarrow>
          Some \<lparr>frames = (alts, a # items) # outer, repeat = Can_repeat, escaped = False\<rparr>)"

definition repeat_item :: "char \<Rightarrow> regex \<Rightarrow> regex" where
  "repeat_item c a =
     (if c = CHR ''*'' then Star a else if c = CHR ''+'' then Seq a (Star a) else Alt a Eps)"

definition parser_step :: "parser_state \<Rightarrow> char \<Rightarrow> parser_state option" where
  "parser_step st c =
     (if escaped st
      then (if c = CHR ''d'' then push_item (Atom is_digit) st
            else if is_punct c then push_item (Atom (\<lambda>x. x = c)) st
            else None)
      else if c = backslash then Some (st\<lparr>escaped := True\<rparr>)
      else if c = CHR ''(''
        then Some \<lparr>frames = ([], []) # frames st, repeat = Nothing_to_repeat, escaped = False\<rparr>
      else if c = CHR '')''
        then (case frames st of
                (alts, items) # (outer_alts, outer_items) # rest \<Rightarrow>
                  Some \<lparr>frames = (outer_alts, mk_alt (alts @ [mk_seq items]) # outer_items) # rest,
                        repeat = Can_repeat, escaped = False\<rparr>
              | _ \<Rightarrow> None)
      else if c = CHR ''|''
        then (case frames st of
                (alts, items) # outer \<Rightarrow>
                  Some \<lparr>frames = (alts @ [mk_seq items], []) # outer,
                        repeat = Nothing_to_repeat, escaped = False\<rparr>
              | [] \<Rightarrow> None)
      else if c = CHR ''*'' \<or> c = CHR ''+'' \<or> c = CHR ''?''
        then (case (repeat st, frames st) of
                (Can_repeat, (alts, a # items) # outer) \<Rightarrow>
                  Some \<lparr>frames = (alts, repeat_item c a # items) # outer,
                        repeat = Repeated, escaped = False\<rparr>
              | (Repeated, fs) \<Rightarrow> if c = CHR ''?'' then Some (st\<lparr>repeat := Lazy\<rparr>) else None
              | _ \<Rightarrow> None)
      else if c = CHR ''.'' then push_item (Atom (\<lambda>x. x \<noteq> newline)) st
      else if c \<in> set ''[]{}^$'' then None
      else push_item (Atom (\<lambda>x. x = c)) st)"

fun parser_run :: "parser_state \<Rightarrow> string \<Rightarrow> parser_state option" where
  "parser_run st [] = Some st"
| "parser_run st (c # cs) =
     (case parser_step st c of None \<Rightarrow> None | Some st' \<Rightarrow> parser_run st' cs)"

definition parse_regex :: "string \<Rightarrow> regex option" where
  "parse_regex p =
     (case parser_run \<lparr>frames = [([], [])], repeat = Nothing_to_repeat, escaped = False\<rparr> p of
        None \<Rightarrow> None
      | Some st \<Rightarrow>
          (case frames st of
             [(alts, items)] \<Rightarrow> if escaped st then None else Some (mk_alt (alts @ [mk_seq items]))
           | _ \<Rightarrow> None))"

definition mini_compile :: compiler where
  "mini_compile p =
     (case parse_regex p of None \<Rightarrow> Inl ReError | Some r \<Rightarrow> Inr (regex_fullmatch r))"

section \<open>The loader: \<^verbatim>\<open>load_hz_range_config_from_files\<close>\<close>

subsection \<open>What \<^verbatim>\<open>yaml.safe_load\<close> returns\<close>

text \<open>
  The documents are built from \<^verbatim>\<open>None\<close>, booleans, integers, floats, strings, lists and
  dicts (a dict as the list of its items, in order, with distinct keys).  Dates, binary
  data and sets, which YAML can also produce, are left out.
\<close>

datatype yaml =
  YNull | YBool bool | YInt int | YFloat pyfloat | YStr string
  | YList "yaml list" | YMap "(yaml \<times> yaml) list"

text \<open>The truth value of an object, as \<^verbatim>\<open>if\<close> and \<^verbatim>\<open>and\<close> take it.\<close>

fun truthy :: "yaml \<Rightarrow> bool" where
  "truthy YNull = False"
| "truthy (YBool b) = b"
| "truthy (YInt n) = (n \<noteq> 0)"
| "truthy (YFloat f) = (f \<noteq> Finite 0 \<and> f \<noteq> NegZero)"
| "truthy (YStr s) = (s \<noteq> [])"
| "truthy (YList l) = (l \<noteq> [])"
| "truthy (YMap m) = (m \<noteq> [])"

text \<open>
  \<^verbatim>\<open>x in v\<close> for a string \<open>x\<close>: a substring of a string, an element of a list, a key of a
  dict; anything else is not iterable.
\<close>

fun contains_str :: "string \<Rightarrow> yaml \<Rightarrow> py_exc + bool" where
  "contains_str x (YStr s) = Inr (sublist x s)"
| "contains_str x (YList l) = Inr (YStr x \<in> set l)"
| "contains_str x (YMap m) = Inr (YStr x \<in> set (map fst m))"
| "contains_str x v = Inl TypeError"

text \<open>\<^verbatim>\<open>v[k]\<close> for a string \<open>k\<close>.\<close>

fun get_item_str :: "yaml \<Rightarrow> string \<Rightarrow> py_exc + yaml" where
  "get_item_str (YMap m) k = (case map_of m (YStr k) of Some v \<Rightarrow> Inr v | None \<Rightarrow> Inl KeyError)"
| "get_item_str v k = Inl TypeError"

text \<open>The elements a \<^verbatim>\<open>for\<close> loop goes through: of a dict its keys, of a string its characters.\<close>

fun iterate :: "yaml \<Rightarrow> py_exc + yaml list" where
  "iterate (YList l) = Inr l"
| "iterate (YMap m) = Inr (map fst m)"
| "iterate (YStr s) = Inr (map (\<lambda>c. YStr [c]) s)"
| "iterate v = Inl TypeError"

text \<open>\<^verbatim>\<open>v.get(k)\<close>: only a dict has the method.\<close>

fun dict_get :: "yaml \<Rightarrow> string \<Rightarrow> py_exc + yaml" where
  "dict_get (YMap m) k = Inr (case map_of m (YStr k) of Some v \<Rightarrow> v | None \<Rightarrow> YNull)"
| "dict_get v k = Inl AttributeError"

fun py_len :: "yaml \<Rightarrow> py_exc + nat" where
  "py_len (YStr s) = Inr (length s)"
| "py_len (YList l) = Inr (length l)"
| "py_len (YMap m) = Inr (length m)"
| "py_len v = Inl TypeError"

text \<open>Whether a dict key equals the integer \<open>i\<close>: \<^verbatim>\<open>0 == 0.0 == False\<close> in Python.\<close>

fun key_equals_int :: "nat \<Rightarrow> yaml \<Rightarrow> bool" where
  "key_equals_int i (YInt n) = (n = int i)"
| "key_equals_int i (YBool b) = ((if b then 1 else 0) = i)"
| "key_equals_int i (YFloat (Finite q)) = (q = of_nat i)"
| "key_equals_int i (YFloat NegZero) = (i = 0)"
| "key_equals_int i v = False"

text \<open>\<^verbatim>\<open>v[i]\<close> for \<open>i\<close> = 0 or 1, where \<^verbatim>\<open>len(v) == 2\<close> is known.\<close>

fun index_int :: "yaml \<Rightarrow> nat \<Rightarrow> py_exc + yaml" where
  "index_int (YList l) i = (if i < length l then Inr (l ! i) else Inl IndexError)"
| "index_int (YStr s) i = (if i < length s then Inr (YStr [s ! i]) else Inl IndexError)"
| "index_int (YMap m) i =
     (case find (\<lambda>kv. key_equals_int i (fst kv)) m of
        Some kv \<Rightarrow> Inr (snd kv)
      | None \<Rightarrow> Inl KeyError)"
| "index_int v i = Inl TypeError"

text \<open>\<^verbatim>\<open>float(n)\<close> for an integer: \<^verbatim>\<open>OverflowError\<close> past the largest double.\<close>

definition float_of_int :: "int \<Rightarrow> py_exc + pyfloat" where
  "float_of_int n =
     (if n = 0 then Inr (Finite 0)
      else let v = round_to_double (of_int \<bar>n\<bar>)
           in if pow2 1024 \<le> v then Inl OverflowError
              else Inr (Finite (if n < 0 then - v else v)))"

fun py_float :: "yaml \<Rightarrow> py_exc + pyfloat" where
  "py_float (YInt n) = float_of_int n"
| "py_float (YFloat f) = Inr f"
| "py_float (YBool b) = Inr (Finite (if b then 1 else 0))"
| "py_float (YStr s) = (case float_of_str s of None \<Rightarrow> Inl ValueError | Some f \<Rightarrow> Inr f)"
| "py_float v = Inl TypeError"

subsection \<open>The body of the loop over the entries\<close>

text \<open>The characters that make a name a pattern.\<close>

definition metachars :: "char list" where
  "metachars = ''*+?^$[](){}|'' @ [backslash]"

text \<open>
  \<^verbatim>\<open>any(char in name for char in [...])\<close>: the tests are made in order, up to the first
  that holds or raises.
\<close>

fun any_char_in :: "char list \<Rightarrow> yaml \<Rightarrow> py_exc + bool" where
  "any_char_in [] name = Inr False"
| "any_char_in (c # cs) name =
     (case contains_str [c] name of
        Inl e \<Rightarrow> Inl e
      | Inr found \<Rightarrow> if found then Inr True else any_char_in cs name)"

text \<open>\<^verbatim>\<open>name and hz_range_list and len(hz_range_list) == 2\<close>.\<close>

definition entry_guard :: "yaml \<Rightarrow> yaml \<Rightarrow> py_exc + bool" where
  "entry_guard name hz_range_list =
     (if \<not> truthy name then Inr False
      else if \<not> truthy hz_range_list then Inr False
      else case py_len hz_range_list of Inl e \<Rightarrow> Inl e | Inr n \<Rightarrow> Inr (n = 2))"

text \<open>\<^verbatim>\<open>{'min': float(hz_range_list[0]), 'max': float(hz_range_list[1])}\<close>, left to right.\<close>

definition make_config :: "yaml \<Rightarrow> py_exc + hz_config" where
  "make_config hz_range_list =
     (case index_int hz_range_list 0 of
        Inl e \<Rightarrow> Inl e
      | Inr a \<Rightarrow>
          (case py_float a of
             Inl e \<Rightarrow> Inl e
           | Inr lo \<Rightarrow>
               (case index_int hz_range_list 1 of
                  Inl e \<Rightarrow> Inl e
                | Inr b \<Rightarrow>
                    (case py_float b of
                       Inl e \<Rightarrow> Inl e
                     | Inr hi \<Rightarrow> Inr \<lparr>min_hz = lo, max_hz = hi\<rparr>))))"

text \<open>
  The calls of the logger in the loader, with the values their messages show.
\<close>

datatype log_event =
  Warning_invalid_hz_range yaml string yaml
  | Warning_invalid_regex yaml string
  | Error_file_not_found string
  | Error_parsing_yaml string
  | Error_unexpected string py_exc

text \<open>
  What one entry does.  The loop body reads nothing of the two stores, so it is split in
  two: \<open>entry_effect\<close> runs the body up to the store or the log call it ends in, and
  \<open>apply_effect\<close> performs that.  \<open>Raise e\<close> is an exception that leaves the loop: one raised
  outside the inner \<^verbatim>\<open>try\<close>, or inside it and neither \<^verbatim>\<open>ValueError\<close> nor \<^verbatim>\<open>re.error\<close>.
\<close>

datatype entry_effect =
  Skip
  | Warn log_event
  | Store_exact string hz_config
  | Append_regex pattern_obj hz_config
  | Raise py_exc

text \<open>
  The inner \<^verbatim>\<open>try\<close> block.  A name that is not a string cannot be compiled and cannot be a
  key (a list or a dict is unhashable): \<^verbatim>\<open>TypeError\<close>.  Whatever \<^verbatim>\<open>re.compile\<close> raises
  leaves the block as it is.
\<close>

definition try_block ::
  "compiler \<Rightarrow> yaml \<Rightarrow> yaml \<Rightarrow> py_exc + entry_effect" where
  "try_block re_compile name hz_range_list =
     (case make_config hz_range_list of
        Inl e \<Rightarrow> Inl e
      | Inr config \<Rightarrow>
          (case any_char_in metachars name of
             Inl e \<Rightarrow> Inl e
           | Inr is_regex \<Rightarrow>
               (case name of
                  YStr s \<Rightarrow>
                    if is_regex
                    then (case re_compile s of
                            Inl e \<Rightarrow> Inl e
                          | Inr m \<Rightarrow> Inr (Append_regex \<lparr>pattern = s, fullmatch = m\<rparr> config))
                    else Inr (Store_exact s config)
                | _ \<Rightarrow> Inl TypeError)))"

definition entry_effect ::
  "compiler \<Rightarrow> string \<Rightarrow> yaml \<Rightarrow> entry_effect" where
  "entry_effect re_compile filepath topic_entry =
     (case dict_get topic_entry ''name'' of
        Inl e \<Rightarrow> Raise e
      | Inr name \<Rightarrow>
          (case dict_get topic_entry ''hz_range'' of
             Inl e \<Rightarrow> Raise e
           | Inr hz_range_list \<Rightarrow>
               (case entry_guard name hz_range_list of
                  Inl e \<Rightarrow> Raise e
                | Inr ok \<Rightarrow>
                    if \<not> ok then Skip
                    else (case try_block re_compile name hz_range_list of
                            Inr eff \<Rightarrow> eff
                          | Inl e \<Rightarrow>
                              if e = ValueError
                              then Warn (Warning_invalid_hz_range name filepath hz_range_list)
                              else if e = ReError
                              then Warn (Warning_invalid_regex name filepath)
                              else Raise e))))"

subsection \<open>The stores, the files and the outer loop\<close>

text \<open>
  The two stores the function builds and returns, \<^verbatim>\<open>exact_match_configs\<close> (a dict) and
  \<^verbatim>\<open>regex_configs\<close> (a list), and the log.
\<close>

record load_state =
  exact_match_configs :: "string \<rightharpoonup> hz_config"
  regex_configs :: "(pattern_obj \<times> hz_config) list"
  logged :: "log_event list"

fun apply_effect :: "load_state \<Rightarrow> entry_effect \<Rightarrow> py_exc + load_state" where
  "apply_effect st Skip = Inr st"
| "apply_effect st (Warn ev) = Inr (st\<lparr>logged := logged st @ [ev]\<rparr>)"
| "apply_effect st (Store_exact name config) =
     Inr (st\<lparr>exact_match_configs := (exact_match_configs st)(name \<mapsto> config)\<rparr>)"
| "apply_effect st (Append_regex p config) =
     Inr (st\<lparr>regex_configs := regex_configs st @ [(p, config)]\<rparr>)"
| "apply_effect st (Raise e) = Inl e"

text \<open>
  \<^verbatim>\<open>for topic_entry in data['topics']\<close>: the state when the loop ends, and the exception
  that ended it, if one did.  What was stored before the exception stays.
\<close>

fun run_entries ::
  "compiler \<Rightarrow> string \<Rightarrow> load_state \<Rightarrow> yaml list
    \<Rightarrow> load_state \<times> py_exc option" where
  "run_entries re_compile filepath st [] = (st, None)"
| "run_entries re_compile filepath st (topic_entry # rest) =
     (case apply_effect st (entry_effect re_compile filepath topic_entry) of
        Inl e \<Rightarrow> (st, Some e)
      | Inr st' \<Rightarrow> run_entries re_compile filepath st' rest)"

text \<open>
  What \<^verbatim>\<open>open\<close> and \<^verbatim>\<open>yaml.safe_load\<close> give for a path: the document, or one of the
  exceptions the three handlers of the outer \<^verbatim>\<open>try\<close> catch.
\<close>

datatype read_result = Loaded yaml | Not_found | Unparsable | Unreadable

text \<open>
  The entries the loop of the \<^verbatim>\<open>with\<close> block goes through:
  \<^verbatim>\<open>if data and 'topics' in data: for topic_entry in data['topics']\<close>.  There are none when
  the document is empty or has no \<^verbatim>\<open>topics\<close>; the test, the lookup and the iteration can
  raise.
\<close>

definition document_entries :: "yaml \<Rightarrow> py_exc + yaml list" where
  "document_entries data =
     (if \<not> truthy data then Inr []
      else case contains_str ''topics'' data of
             Inl e \<Rightarrow> Inl e
           | Inr has_topics \<Rightarrow>
               if \<not> has_topics then Inr []
               else (case get_item_str data ''topics'' of
                       Inl e \<Rightarrow> Inl e
                     | Inr topics \<Rightarrow> iterate topics))"

text \<open>
  The body of the \<^verbatim>\<open>with\<close> block once the document is loaded: the state it leaves, and
  the exception that left it, if one did.
\<close>

definition load_document ::
  "compiler \<Rightarrow> string \<Rightarrow> load_state \<Rightarrow> yaml
    \<Rightarrow> load_state \<times> py_exc option" where
  "load_document re_compile filepath st data =
     (case document_entries data of
        Inl e \<Rightarrow> (st, Some e)
      | Inr entries \<Rightarrow> run_entries re_compile filepath st entries)"

definition add_log :: "load_state \<Rightarrow> log_event \<Rightarrow> load_state" where
  "add_log st ev = st\<lparr>logged := logged st @ [ev]\<rparr>"

text \<open>The body of the loop over the files, with the three handlers.\<close>

fun load_file ::
  "compiler \<Rightarrow> load_state \<Rightarrow> string \<times> read_result \<Rightarrow> load_state" where
  "load_file re_compile st (filepath, Not_found) = add_log st (Error_file_not_found filepath)"
| "load_file re_compile st (filepath, Unparsable) = add_log st (Error_parsing_yaml filepath)"
| "load_file re_compile st (filepath, Unreadable) = add_log st (Error_unexpected filepath OtherError)"
| "load_file re_compile st (filepath, Loaded data) =
     (case load_document re_compile filepath st data of
        (st', None) \<Rightarrow> st'
      | (st', Some e) \<Rightarrow> add_log st' (Error_unexpected filepath e))"

definition empty_state :: load_state where
  "empty_state = \<lparr>exact_match_configs = Map.empty, regex_configs = [], logged = []\<rparr>"

text \<open>
  The function.  Its argument pairs each path of \<^verbatim>\<open>yaml_filepaths_list\<close> with what reading
  that file gives; its result holds the pair the source returns, and the log.
\<close>

definition load_hz_range_config_from_files ::
  "compiler \<Rightarrow> (string \<times> read_result) list \<Rightarrow> load_state" where
  "load_hz_range_config_from_files re_compile files = foldl (load_file re_compile) empty_state files"

section \<open>Reference notions and example data\<close>

text \<open>
  The rule that applies to a topic name, said without the loop: the exact rule if the name
  is a key of the exact map, else the range of the first pattern of the list that matches
  the whole name.
\<close>

definition applicable_rule ::
  "(string \<rightharpoonup> hz_config) \<Rightarrow> (pattern_obj \<times> hz_config) list \<Rightarrow> string \<Rightarrow> hz_config option" where
  "applicable_rule ex rx name =
     (case ex name of
        Some cfg \<Rightarrow> Some cfg
      | None \<Rightarrow> map_option snd (find (\<lambda>pc. fullmatch (fst pc) name) rx))"

text \<open>The text \<^verbatim>\<open>f"[{min}, {max}]"\<close> of a range, and the status the range gives a frequency.\<close>

definition range_text :: "hz_config \<Rightarrow> string" where
  "range_text cfg = ''['' @ float_repr (min_hz cfg) @ '', '' @ float_repr (max_hz cfg) @ '']''"

definition range_status :: "hz_config \<Rightarrow> pyfloat \<Rightarrow> string" where
  "range_status cfg f =
     (if float_le (min_hz cfg) f \<and> float_le f (max_hz cfg) then ''OK'' else ''NG'')"

text \<open>The pattern object \<^verbatim>\<open>re.compile(p)\<close> gives, for a pattern \<open>mini_compile\<close> reads.\<close>

definition compiled :: "string \<Rightarrow> pattern_obj" where
  "compiled p =
     \<lparr>pattern = p, fullmatch = (case mini_compile p of Inr m \<Rightarrow> m | Inl e \<Rightarrow> (\<lambda>s. False))\<rparr>"

text \<open>The rule \<^verbatim>\<open>{name: "/foo", hz_range: [1, 5]}\<close> and a statistic of that topic.\<close>

definition foo_rule :: "string \<rightharpoonup> hz_config" where
  "foo_rule = [''/foo'' \<mapsto> \<lparr>min_hz = Finite 1, max_hz = Finite 5\<rparr>]"

definition foo_stat :: "pyfloat \<Rightarrow> stat" where
  "foo_stat f = \<lparr>topic = ''/foo'', message_count = 10, message_frequency = f\<rparr>"

text \<open>
  Three patterns, \<^verbatim>\<open>/cam\d+\<close>, \<^verbatim>\<open>/cam.*\<close> and \<^verbatim>\<open>/cam0.*\<close>, with the expressions they
  parse to, and a statistic of the topic \<^verbatim>\<open>/cam0/data\<close>.
\<close>

definition cam_digits :: string where
  "cam_digits = ''/cam'' @ [backslash] @ ''d+''"

definition lit :: "char \<Rightarrow> regex" where
  "lit c = Atom (\<lambda>x. x = c)"

definition any_char :: regex where
  "any_char = Atom (\<lambda>x. x \<noteq> newline)"

definition cam_digits_regex :: regex where
  "cam_digits_regex =
     Seq (lit CHR ''/'') (Seq (lit CHR ''c'') (Seq (lit CHR ''a'') (Seq (lit CHR ''m'')
       (Seq (Seq (Atom is_digit) (Star (Atom is_digit))) Eps))))"

definition cam_any_regex :: regex where
  "cam_any_regex =
     Seq (lit CHR ''/'') (Seq (lit CHR ''c'') (Seq (lit CHR ''a'') (Seq (lit CHR ''m'')
       (Seq (Star any_char) Eps))))"

definition cam0_any_regex :: regex where
  "cam0_any_regex =
     Seq (lit CHR ''/'') (Seq (lit CHR ''c'') (Seq (lit CHR ''a'') (Seq (lit CHR ''m'')
       (Seq (lit CHR ''0'') (Seq (Star any_char) Eps)))))"

text \<open>
  Two patterns that match \<^verbatim>\<open>/foo\<close> in full, \<^verbatim>\<open>/.*\<close> and \<^verbatim>\<open>/fo+\<close>, with the
  expressions they parse to and two ranges for them.
\<close>

definition slash_any_regex :: regex where
  "slash_any_regex = Seq (lit CHR ''/'') (Seq (Star any_char) Eps)"

definition fo_plus_regex :: regex where
  "fo_plus_regex =
     Seq (lit CHR ''/'') (Seq (lit CHR ''f'') (Seq (Seq (lit CHR ''o'') (Star (lit CHR ''o''))) Eps))"

definition wide_rule :: "pattern_obj \<times> hz_config" where
  "wide_rule = (compiled ''/.*'', \<lparr>min_hz = Finite 10, max_hz = Finite 30\<rparr>)"

definition fo_rule :: "pattern_obj \<times> hz_config" where
  "fo_rule = (compiled ''/fo+'', \<lparr>min_hz = Finite 100, max_hz = Finite 200\<rparr>)"

definition cam_rules :: "(pattern_obj \<times> hz_config) list" where
  "cam_rules =
     [(compiled cam_digits, \<lparr>min_hz = Finite 1, max_hz = Finite 5\<rparr>),
      (compiled ''/cam.*'', \<lparr>min_hz = Finite 10, max_hz = Finite 30\<rparr>),
      (compiled ''/cam0.*'', \<lparr>min_hz = Finite 1, max_hz = Finite 5\<rparr>)]"

definition cam_stat :: stat where
  "cam_stat = \<lparr>topic = ''/cam0/data'', message_count = 4, message_frequency = Finite 20\<rparr>"

text \<open>
  What the loader does, said without its loops.  \<open>file_effects\<close> lists what the entries of
  one file do, in the order of the document, up to the first that raises; \<open>all_effects\<close>
  goes through the files in their order.  \<open>exact_entries\<close> keeps the exact rules of such a
  list and \<open>regex_entries\<close> its pattern rules, both in order.
\<close>

fun is_raise :: "entry_effect \<Rightarrow> bool" where
  "is_raise (Raise e) = True"
| "is_raise eff = False"

fun file_effects ::
  "compiler \<Rightarrow> string \<times> read_result \<Rightarrow> entry_effect list" where
  "file_effects re_compile (filepath, Loaded data) =
     (case document_entries data of
        Inl e \<Rightarrow> []
      | Inr entries \<Rightarrow>
          takeWhile (\<lambda>eff. \<not> is_raise eff) (map (entry_effect re_compile filepath) entries))"
| "file_effects re_compile (filepath, r) = []"

definition all_effects ::
  "compiler \<Rightarrow> (string \<times> read_result) list \<Rightarrow> entry_effect list" where
  "all_effects re_compile files = concat (map (file_effects re_compile) files)"

fun exact_entries :: "entry_effect list \<Rightarrow> (string \<times> hz_config) list" where
  "exact_entries [] = []"
| "exact_entries (Store_exact name config # effs) = (name, config) # exact_entries effs"
| "exact_entries (eff # effs) = exact_entries effs"

fun regex_entries :: "entry_effect list \<Rightarrow> (pattern_obj \<times> hz_config) list" where
  "regex_entries [] = []"
| "regex_entries (Append_regex p config # effs) = (p, config) # regex_entries effs"
| "regex_entries (eff # effs) = regex_entries effs"

text \<open>
  A configuration entry \<^verbatim>\<open>{name: ..., hz_range: ...}\<close>, an entry with a name only, and a
  document \<^verbatim>\<open>{topics: [...]}\<close>.
\<close>

definition entry :: "string \<Rightarrow> yaml \<Rightarrow> yaml" where
  "entry name hz_range = YMap [(YStr ''name'', YStr name), (YStr ''hz_range'', hz_range)]"

definition name_only :: "string \<Rightarrow> yaml" where
  "name_only name = YMap [(YStr ''name'', YStr name)]"

definition topics_doc :: "yaml list \<Rightarrow> yaml" where
  "topics_doc entries = YMap [(YStr ''topics'', YList entries)]"

text \<open>The source \<^verbatim>\<open>{topics: [{name: "/odom", hz_range: [10, 30]}]}\<close> and a statistic for it.\<close>

definition odom_doc :: yaml where
  "odom_doc = topics_doc [entry ''/odom'' (YList [YInt 10, YInt 30])]"

definition odom_stat :: stat where
  "odom_stat = \<lparr>topic = ''/odom'', message_count = 1, message_frequency = Finite 20\<rparr>"

text \<open>
  Two sources.  The first gives \<^verbatim>\<open>/odom\<close> the range 1 to 5, then the pattern \<^verbatim>\<open>/cam\d+\<close>;
  the second gives the pattern \<^verbatim>\<open>/cam.*\<close>, then \<^verbatim>\<open>/odom\<close> the range 10 to 30.
\<close>

definition first_doc :: yaml where
  "first_doc = topics_doc [entry ''/odom'' (YList [YInt 1, YInt 5]),
                           entry cam_digits (YList [YInt 1, YInt 5])]"

definition second_doc :: yaml where
  "second_doc = topics_doc [entry ''/cam.*'' (YList [YInt 10, YInt 30]),
                            entry ''/odom'' (YList [YInt 10, YInt 30])]"

text \<open>
  A source with an entry that has no \<^verbatim>\<open>hz_range\<close>, one whose \<^verbatim>\<open>hz_range\<close> has three
  elements, one with the bounds \<^verbatim>\<open>["a", "b"]\<close>, and a good entry after them.
\<close>

definition faulty_doc :: yaml where
  "faulty_doc = topics_doc [name_only ''/a'',
                            entry ''/three'' (YList [YInt 1, YInt 2, YInt 3]),
                            entry ''/bad'' (YList [YStr ''a'', YStr ''b'']),
                            entry ''/odom'' (YList [YInt 10, YInt 30])]"

text \<open>A source with a \<^verbatim>\<open>null\<close> bound before a good entry.\<close>

definition null_bound_doc :: yaml where
  "null_bound_doc = topics_doc [entry ''/n'' (YList [YNull, YInt 5]),
                                entry ''/odom'' (YList [YInt 10, YInt 30])]"

text \<open>A source whose first entry has no \<^verbatim>\<open>hz_range\<close>, before a good entry.\<close>

definition missing_range_doc :: yaml where
  "missing_range_doc = topics_doc [name_only ''/a'', entry ''/odom'' (YList [YInt 10, YInt 30])]"

text \<open>
  A record as a sequence of plain text and escape sequences.  A piece of text is well formed
  when it holds no ESC, an escape sequence when the pattern matches exactly the whole of
  it.  \<open>rendered\<close> is the record as it arrives, \<open>hand_stripped\<close> the record with the escape
  sequences left out.
\<close>

datatype segment = Text string | Escape string

fun well_formed :: "segment \<Rightarrow> bool" where
  "well_formed (Text t) = (esc_char \<notin> set t)"
| "well_formed (Escape e) = (match_ansi e = Some [])"

fun rendered :: "segment list \<Rightarrow> string" where
  "rendered [] = []"
| "rendered (Text t # segs) = t @ rendered segs"
| "rendered (Escape e # segs) = e @ rendered segs"

fun hand_stripped :: "segment list \<Rightarrow> string" where
  "hand_stripped [] = []"
| "hand_stripped (Text t # segs) = t @ hand_stripped segs"
| "hand_stripped (Escape e # segs) = hand_stripped segs"

text \<open>A coloured record: \<^verbatim>\<open>ESC[1;31m\<close> before the topic name and \<^verbatim>\<open>ESC[0m\<close> after it.\<close>

definition coloured_record :: "segment list" where
  "coloured_record =
     [Text ''Statistics for topic '', Escape (esc_char # ''[1;31m''), Text ''/a'',
      Escape (esc_char # ''[0m''),
      Text (newline # ''Message count = 7, Message frequency = nan'')]"

text \<open>
  The text \<^verbatim>\<open>ESC ESC [ m [ m\<close>: removing the one escape sequence in it leaves an escape
  sequence.  And a record with that text inside the words of a block.
\<close>

definition nested_escape :: string where
  "nested_escape = [esc_char, esc_char] @ ''[m[m''"

definition nested_record :: string where
  "nested_record =
     ''Statistics for topic /a'' @ [newline] @ ''Message'' @ nested_escape
       @ '' count = 1, Message frequency = nan''"

text \<open>A block whose frequency token has two points, and a record with two blocks, the second
  with a name of blanks only.\<close>

definition dotted_record :: string where
  "dotted_record =
     ''Statistics for topic /a'' @ [newline] @ ''Message count = 5, Message frequency = 1.2.3''"

definition padded_record :: string where
  "padded_record =
     ''Statistics for topic   /a b  '' @ [newline] @ ''Message count = 7, Message frequency = nan''
       @ [newline] @ ''Statistics for topic   '' @ [newline]
       @ ''Message count = 1, Message frequency = nan''"

section \<open>Facts about floats\<close>

lemma round_half_even_of_int [simp]: "round_half_even (of_int m) = m"
  by (simp add: round_half_even_def)

lemma pow2_nonpos: "p \<le> 0 \<Longrightarrow> pow2 p = 1 / 2 ^ nat (- p)"
  by (cases "p = 0") (simp_all add: pow2_def)

lemma floor_log2_of_int:
  assumes "0 < n"
  shows "floor_log2 (of_int n) = bitlen n - 1"
proof -
  have b: "1 \<le> bitlen n"
    using assms by (simp add: bitlen_alt_def)
  have "(2::int) ^ nat (bitlen n - 1) \<le> n"
    using bitlen_bounds [OF assms] by simp
  then have "(of_int ((2::int) ^ nat (bitlen n - 1)) :: rat) \<le> of_int n"
    by (simp only: of_int_le_iff)
  then have le: "pow2 (bitlen n - 1) \<le> of_int n"
    using b by (simp add: pow2_def)
  have one: "bitlen 1 = 1"
    by (simp add: bitlen_alt_def)
  show ?thesis
    using le by (simp add: floor_log2_def one)
qed

text \<open>An integer below \<open>2 ^ 53\<close> is a double: rounding leaves it as it is.\<close>

lemma round_to_double_of_int:
  assumes "0 < n" and "n < 2 ^ 53"
  shows "round_to_double (of_int n) = of_int n"
proof -
  have b1: "1 \<le> bitlen n"
    using assms(1) by (simp add: bitlen_alt_def)
  have b2: "bitlen n \<le> 53"
    using assms(2) by (simp add: bitlen_le_iff_power)
  define k where "k = nat (53 - bitlen n)"
  have p: "max (floor_log2 (of_int n) - 52) (- 1074) = - int k"
    using b1 b2 by (simp add: floor_log2_of_int [OF assms(1)] k_def)
  have q: "(of_int n :: rat) / pow2 (- int k) = of_int (n * 2 ^ k)"
    by (simp add: pow2_nonpos)
  show ?thesis
    unfolding round_to_double_def Let_def p q round_half_even_of_int
    by (simp add: pow2_nonpos)
qed

lemma pow2_1024_gt:
  assumes "v < 2 ^ 53"
  shows "\<not> pow2 1024 \<le> v"
proof -
  have "(2::rat) ^ 53 \<le> 2 ^ 1024"
    by (rule power_increasing) simp_all
  then show ?thesis
    using assms by (simp add: pow2_def)
qed

lemma float_of_int_exact:
  assumes "\<bar>n\<bar> < 2 ^ 53"
  shows "float_of_int n = Inr (Finite (of_int n))"
proof (cases "n = 0")
  case True
  then show ?thesis by (simp add: float_of_int_def)
next
  case False
  then have pos: "0 < \<bar>n\<bar>" by simp
  have r: "round_to_double (of_int \<bar>n\<bar>) = of_int \<bar>n\<bar>"
    using pos assms by (rule round_to_double_of_int)
  have "(of_int \<bar>n\<bar> :: rat) < of_int (2 ^ 53)"
    using assms by (simp only: of_int_less_iff)
  then have "\<not> pow2 1024 \<le> (of_int \<bar>n\<bar> :: rat)"
    by (intro pow2_1024_gt) simp
  then have "float_of_int n = Inr (Finite (if n < 0 then - of_int \<bar>n\<bar> else of_int \<bar>n\<bar>))"
    using False unfolding float_of_int_def Let_def r by (simp del: of_int_abs)
  also have "(if n < 0 then - (of_int \<bar>n\<bar> :: rat) else of_int \<bar>n\<bar>) = of_int n"
    by (cases "n < 0") simp_all
  finally show ?thesis .
qed

lemma float_of_decimal_nat:
  assumes "0 < n" and "n < 2 ^ 53"
  shows "float_of_decimal False (of_nat n) = Finite (of_nat n)"
proof -
  have r: "round_to_double (of_int (int n)) = of_int (int n)"
    using assms by (intro round_to_double_of_int) simp_all
  have "(of_int (int n) :: rat) < of_int (2 ^ 53)"
    using assms(2) by (simp only: of_int_less_iff) simp
  then have "\<not> pow2 1024 \<le> (of_int (int n) :: rat)"
    by (intro pow2_1024_gt) simp
  then show ?thesis
    using assms(1) r by (simp add: float_of_decimal_def Let_def)
qed

lemma float_le_NaN [simp]: "\<not> float_le NaN x" "\<not> float_le x NaN"
  by (auto simp: float_le_def split: option.splits)

lemma float_gt_empty_range:
  "float_gt lo hi \<Longrightarrow> \<not> (float_le lo f \<and> float_le f hi)"
  by (auto simp: float_gt_def float_le_def split: option.splits)

lemma float_repr_10: "float_repr (Finite 10) = ''10.0''"
  by code_simp

lemma float_repr_30: "float_repr (Finite 30) = ''30.0''"
  by code_simp

section \<open>Facts about the example patterns\<close>

lemmas parser_defs =
  parse_regex_def parser_step_def push_item_def repeat_item_def mk_seq_def mk_alt_def
  backslash_def is_punct_def code_point_def lit_def any_char_def

lemma parse_cam_digits: "parse_regex cam_digits = Some cam_digits_regex"
  by (simp add: parser_defs cam_digits_def cam_digits_regex_def)

lemma parse_cam_any: "parse_regex ''/cam.*'' = Some cam_any_regex"
  by (simp add: parser_defs cam_any_regex_def)

lemma parse_cam0_any: "parse_regex ''/cam0.*'' = Some cam0_any_regex"
  by (simp add: parser_defs cam0_any_regex_def)

lemma is_digit_examples [simp]:
  "is_digit CHR ''0''" "\<not> is_digit CHR ''/''" "\<not> is_digit CHR ''s''" "\<not> is_digit CHR ''d''"
  by (simp_all add: is_digit_def code_point_def)

lemma fullmatch_compiled:
  "parse_regex p = Some r \<Longrightarrow> fullmatch (compiled p) s = regex_fullmatch r s"
  by (simp add: compiled_def mini_compile_def)

text \<open>
  \<^verbatim>\<open>/cam\d+\<close> matches \<^verbatim>\<open>/cam0\<close> in full, and only a part of \<^verbatim>\<open>/cam0/data\<close> and of
  \<^verbatim>\<open>/sensor/cam0\<close>.
\<close>

lemma cam_digits_matches:
  "fullmatch (compiled cam_digits) ''/cam0''"
  "\<not> fullmatch (compiled cam_digits) ''/cam0/data''"
  "\<not> fullmatch (compiled cam_digits) ''/sensor/cam0''"
  by (simp_all add: fullmatch_compiled [OF parse_cam_digits] regex_fullmatch_def
      cam_digits_regex_def lit_def)

lemma cam_any_matches:
  "fullmatch (compiled ''/cam.*'') ''/cam0/data''"
  "fullmatch (compiled ''/cam0.*'') ''/cam0/data''"
  by (simp_all add: fullmatch_compiled [OF parse_cam_any] fullmatch_compiled [OF parse_cam0_any]
      regex_fullmatch_def cam_any_regex_def cam0_any_regex_def lit_def any_char_def newline_def)

lemma parse_slash_any: "parse_regex ''/.*'' = Some slash_any_regex"
  by (simp add: parser_defs slash_any_regex_def)

lemma parse_fo_plus: "parse_regex ''/fo+'' = Some fo_plus_regex"
  by (simp add: parser_defs fo_plus_regex_def)

text \<open>Both \<^verbatim>\<open>/.*\<close> and \<^verbatim>\<open>/fo+\<close> match \<^verbatim>\<open>/foo\<close> in full.\<close>

lemma foo_patterns_match:
  "fullmatch (fst wide_rule) ''/foo''"
  "fullmatch (fst fo_rule) ''/foo''"
  by (simp_all add: wide_rule_def fo_rule_def fullmatch_compiled [OF parse_slash_any]
      fullmatch_compiled [OF parse_fo_plus] regex_fullmatch_def slash_any_regex_def
      fo_plus_regex_def lit_def any_char_def newline_def)

section \<open>The validator\<close>

lemma scan_regex_configs_find:
  "fst (scan_regex_configs rx name) = map_option snd (find (\<lambda>pc. fullmatch (fst pc) name) rx)"
  by (induction rx) auto

lemma find_config_applicable:
  "fst (find_config ex rx name) = applicable_rule ex rx name"
  by (simp add: find_config_def applicable_rule_def scan_regex_configs_find split: option.splits)

lemma status_check_one:
  "applicable_rule ex rx (topic st) = Some cfg \<Longrightarrow>
   status (check_one ex rx st) = range_status cfg (message_frequency st)"
  using find_config_applicable [of ex rx "topic st"]
  by (cases "find_config ex rx (topic st)") (auto simp: check_one_def Let_def range_status_def)

lemma check_one_exact:
  "ex (topic st) = Some cfg \<Longrightarrow>
   check_one ex rx st =
     \<lparr>result_topic = topic st, frequency = message_frequency st,
      expected_range = range_text cfg,
      status = range_status cfg (message_frequency st),
      config_source = ''Exact match: '' @ topic st\<rparr>"
  by (simp add: check_one_def find_config_def Let_def range_text_def range_status_def)

lemma scan_regex_configs_first:
  "j < length rx \<Longrightarrow> fullmatch (fst (rx ! j)) name \<Longrightarrow>
   (\<forall>k<j. \<not> fullmatch (fst (rx ! k)) name) \<Longrightarrow>
   scan_regex_configs rx name = (Some (snd (rx ! j)), ''Regex match: '' @ pattern (fst (rx ! j)))"
proof (induction rx arbitrary: j)
  case Nil
  then show ?case by simp
next
  case (Cons pc rx)
  obtain p c where pc: "pc = (p, c)" by (cases pc)
  show ?case
  proof (cases j)
    case 0
    with Cons.prems pc show ?thesis by simp
  next
    case (Suc i)
    have "\<not> fullmatch p name"
      using Cons.prems(3) Suc pc by auto
    moreover have "scan_regex_configs rx name =
        (Some (snd (rx ! i)), ''Regex match: '' @ pattern (fst (rx ! i)))"
      using Cons.prems Suc by (intro Cons.IH) auto
    ultimately show ?thesis
      using Suc pc by simp
  qed
qed

lemma scan_regex_configs_none:
  "(\<forall>pc\<in>set rx. \<not> fullmatch (fst pc) name) \<Longrightarrow> scan_regex_configs rx name = (None, ''N/A'')"
  by (induction rx) auto

lemma check_one_no_rule:
  "ex (topic st) = None \<Longrightarrow> (\<forall>pc\<in>set rx. \<not> fullmatch (fst pc) (topic st)) \<Longrightarrow>
   check_one ex rx st =
     \<lparr>result_topic = topic st, frequency = message_frequency st, expected_range = ''N/A'',
      status = ''Config Not Found'', config_source = ''N/A''\<rparr>"
  by (simp add: check_one_def find_config_def Let_def scan_regex_configs_none)

lemma result_topic_check_one: "result_topic (check_one ex rx st) = topic st"
  by (cases "find_config ex rx (topic st)")
     (auto simp: check_one_def Let_def split: option.splits)

lemma frequency_check_one: "frequency (check_one ex rx st) = message_frequency st"
  by (cases "find_config ex rx (topic st)")
     (auto simp: check_one_def Let_def split: option.splits)

text \<open>
  Claim C1.  For a statistic whose topic has a rule (the exact rule of its name, else the
  first pattern that matches the name in full), with range \<open>[min, max]\<close>: the status is
  \<^verbatim>\<open>OK\<close> exactly when \<open>min \<le> frequency \<le> max\<close> in Python's comparison of floats, and
  \<^verbatim>\<open>NG\<close> exactly when not.  A NaN frequency gives \<^verbatim>\<open>NG\<close>, and when \<open>min > max\<close> every
  frequency gives \<^verbatim>\<open>NG\<close>.
\<close>

theorem status_ok_iff_in_range:
  assumes "i < length sts"
    and "applicable_rule ex rx (topic (sts ! i)) = Some cfg"
  shows "(status (check_topic_frequencies sts ex rx ! i) = ''OK''
            \<longleftrightarrow> float_le (min_hz cfg) (message_frequency (sts ! i))
                \<and> float_le (message_frequency (sts ! i)) (max_hz cfg))
       \<and> (status (check_topic_frequencies sts ex rx ! i) = ''NG''
            \<longleftrightarrow> \<not> (float_le (min_hz cfg) (message_frequency (sts ! i))
                   \<and> float_le (message_frequency (sts ! i)) (max_hz cfg)))
       \<and> (message_frequency (sts ! i) = NaN
            \<longrightarrow> status (check_topic_frequencies sts ex rx ! i) = ''NG'')
       \<and> (float_gt (min_hz cfg) (max_hz cfg)
            \<longrightarrow> status (check_topic_frequencies sts ex rx ! i) = ''NG'')"
proof -
  have r: "check_topic_frequencies sts ex rx ! i = check_one ex rx (sts ! i)"
    using assms(1) by (simp add: check_topic_frequencies_def)
  have s: "status (check_one ex rx (sts ! i)) = range_status cfg (message_frequency (sts ! i))"
    using assms(2) by (rule status_check_one)
  have g: "float_gt (min_hz cfg) (max_hz cfg) \<Longrightarrow>
      \<not> (float_le (min_hz cfg) (message_frequency (sts ! i))
          \<and> float_le (message_frequency (sts ! i)) (max_hz cfg))"
    by (rule float_gt_empty_range)
  show ?thesis
    using g by (auto simp: r s range_status_def)
qed

text \<open>
  The rule \<^verbatim>\<open>/foo\<close> with range 1 to 5: the frequency 3 is \<^verbatim>\<open>OK\<close>; 0.5, 6 and NaN are
  \<^verbatim>\<open>NG\<close>.
\<close>

theorem status_ok_iff_in_range_witness:
  "status (check_topic_frequencies [foo_stat (Finite 3), foo_stat (Finite (1 / 2)),
             foo_stat (Finite 6), foo_stat NaN] foo_rule [] ! 0) = ''OK''
   \<and> status (check_topic_frequencies [foo_stat (Finite 3), foo_stat (Finite (1 / 2)),
             foo_stat (Finite 6), foo_stat NaN] foo_rule [] ! 1) = ''NG''
   \<and> status (check_topic_frequencies [foo_stat (Finite 3), foo_stat (Finite (1 / 2)),
             foo_stat (Finite 6), foo_stat NaN] foo_rule [] ! 2) = ''NG''
   \<and> status (check_topic_frequencies [foo_stat (Finite 3), foo_stat (Finite (1 / 2)),
             foo_stat (Finite 6), foo_stat NaN] foo_rule [] ! 3) = ''NG''"
proof -
  let ?sts = "[foo_stat (Finite 3), foo_stat (Finite (1 / 2)), foo_stat (Finite 6), foo_stat NaN]"
  let ?cfg = "\<lparr>min_hz = Finite 1, max_hz = Finite 5\<rparr>"
  have a: "applicable_rule foo_rule [] (topic (?sts ! i)) = Some ?cfg" if "i < 4" for i
  proof -
    from that have "i = 0 \<or> i = 1 \<or> i = 2 \<or> i = 3" by arith
    then show ?thesis
      by (auto simp: applicable_rule_def foo_rule_def foo_stat_def)
  qed
  have "status (check_topic_frequencies ?sts foo_rule [] ! 0) = ''OK''"
    using status_ok_iff_in_range [of 0 ?sts foo_rule "[]" ?cfg] a [of 0]
    by (simp add: foo_stat_def float_le_def)
  moreover have "status (check_topic_frequencies ?sts foo_rule [] ! 1) = ''NG''"
    using status_ok_iff_in_range [of 1 ?sts foo_rule "[]" ?cfg] a [of 1]
    by (simp add: foo_stat_def float_le_def)
  moreover have "status (check_topic_frequencies ?sts foo_rule [] ! 2) = ''NG''"
    using status_ok_iff_in_range [of 2 ?sts foo_rule "[]" ?cfg] a [of 2]
    by (simp add: foo_stat_def float_le_def)
  moreover have "status (check_topic_frequencies ?sts foo_rule [] ! 3) = ''NG''"
    using status_ok_iff_in_range [of 3 ?sts foo_rule "[]" ?cfg] a [of 3]
    by (simp add: foo_stat_def)
  ultimately show ?thesis by blast
qed

text \<open>
  Claim C3, as amended.  When the topic of a statistic is a key of the exact map, the result
  is made from the exact rule alone, whatever the pattern list holds and in whatever
  order: the text of its range, the status of the frequency in its range, and the
  \<^verbatim>\<open>config_source\<close> \<^verbatim>\<open>Exact match: <name>\<close>, with a capital E.
\<close>

theorem exact_rule_wins:
  assumes "ex (topic st) = Some cfg"
  shows "check_topic_frequencies [st] ex rx =
           [\<lparr>result_topic = topic st, frequency = message_frequency st,
             expected_range = range_text cfg,
             status = range_status cfg (message_frequency st),
             config_source = ''Exact match: '' @ topic st\<rparr>]"
  using assms by (simp add: check_topic_frequencies_def check_one_exact)

text \<open>
  The exact rule \<^verbatim>\<open>/foo\<close> (range 1 to 5) beside the patterns \<^verbatim>\<open>/.*\<close> and \<^verbatim>\<open>/fo+\<close>, which
  both match \<^verbatim>\<open>/foo\<close> in full and have other ranges: in either order of the patterns the
  result is that of the exact rule.
\<close>

theorem exact_rule_wins_witness:
  "fullmatch (fst wide_rule) ''/foo''
   \<and> fullmatch (fst fo_rule) ''/foo''
   \<and> check_topic_frequencies [foo_stat (Finite 3)] foo_rule [wide_rule, fo_rule] =
       [\<lparr>result_topic = ''/foo'', frequency = Finite 3,
         expected_range = range_text \<lparr>min_hz = Finite 1, max_hz = Finite 5\<rparr>,
         status = ''OK'', config_source = ''Exact match: /foo''\<rparr>]
   \<and> check_topic_frequencies [foo_stat (Finite 3)] foo_rule [fo_rule, wide_rule] =
       [\<lparr>result_topic = ''/foo'', frequency = Finite 3,
         expected_range = range_text \<lparr>min_hz = Finite 1, max_hz = Finite 5\<rparr>,
         status = ''OK'', config_source = ''Exact match: /foo''\<rparr>]"
proof -
  have h: "foo_rule (topic (foo_stat (Finite 3))) = Some \<lparr>min_hz = Finite 1, max_hz = Finite 5\<rparr>"
    by (simp add: foo_rule_def foo_stat_def)
  have a: "check_topic_frequencies [foo_stat (Finite 3)] foo_rule [wide_rule, fo_rule] =
       [\<lparr>result_topic = ''/foo'', frequency = Finite 3,
         expected_range = range_text \<lparr>min_hz = Finite 1, max_hz = Finite 5\<rparr>,
         status = ''OK'', config_source = ''Exact match: /foo''\<rparr>]"
    using exact_rule_wins [where ex = foo_rule and st = "foo_stat (Finite 3)"
        and cfg = "\<lparr>min_hz = Finite 1, max_hz = Finite 5\<rparr>"
        and rx = "[wide_rule, fo_rule]", OF h]
    by (simp add: foo_stat_def range_status_def float_le_def)
  have b: "check_topic_frequencies [foo_stat (Finite 3)] foo_rule [fo_rule, wide_rule] =
       [\<lparr>result_topic = ''/foo'', frequency = Finite 3,
         expected_range = range_text \<lparr>min_hz = Finite 1, max_hz = Finite 5\<rparr>,
         status = ''OK'', config_source = ''Exact match: /foo''\<rparr>]"
    using exact_rule_wins [where ex = foo_rule and st = "foo_stat (Finite 3)"
        and cfg = "\<lparr>min_hz = Finite 1, max_hz = Finite 5\<rparr>"
        and rx = "[fo_rule, wide_rule]", OF h]
    by (simp add: foo_stat_def range_status_def float_le_def)
  from foo_patterns_match a b show ?thesis
    by blast
qed

text \<open>
  Claim C3 as the spec words it fails on the text of \<^verbatim>\<open>config_source\<close>: with the exact rule
  \<^verbatim>\<open>/foo\<close> beside the pattern \<^verbatim>\<open>/.*\<close>, which matches \<^verbatim>\<open>/foo\<close> in full, the code writes
  \<^verbatim>\<open>Exact match: /foo\<close>, not \<^verbatim>\<open>exact match: /foo\<close>.
\<close>

theorem exact_match_text_counterexample:
  "fullmatch (fst wide_rule) ''/foo''
   \<and> config_source (hd (check_topic_frequencies [foo_stat (Finite 3)] foo_rule [wide_rule]))
       = ''Exact match: /foo''
   \<and> config_source (hd (check_topic_frequencies [foo_stat (Finite 3)] foo_rule [wide_rule]))
       \<noteq> ''exact match: /foo''"
  by (simp add: foo_patterns_match check_topic_frequencies_def check_one_def find_config_def
      foo_rule_def foo_stat_def Let_def)

text \<open>
  Claim C4.  When the topic of a statistic is no key of the exact map, the patterns are
  tried in the order of the list, and the first whose \<^verbatim>\<open>fullmatch\<close> accepts the whole name
  gives the range, the status and the \<^verbatim>\<open>config_source\<close>.  A pattern before it that does not
  match the whole name is passed over, whether or not it matches a part of it; a pattern
  after it is not looked at, whether or not it matches.
\<close>

theorem first_full_match_wins:
  assumes "ex (topic st) = None"
    and "j < length rx"
    and "fullmatch (fst (rx ! j)) (topic st)"
    and "\<forall>k<j. \<not> fullmatch (fst (rx ! k)) (topic st)"
  shows "check_topic_frequencies [st] ex rx =
           [\<lparr>result_topic = topic st, frequency = message_frequency st,
             expected_range = range_text (snd (rx ! j)),
             status = range_status (snd (rx ! j)) (message_frequency st),
             config_source = ''Regex match: '' @ pattern (fst (rx ! j))\<rparr>]"
  using assms
  by (simp add: check_topic_frequencies_def check_one_def find_config_def Let_def
      scan_regex_configs_first [of j rx "topic st"] range_text_def range_status_def)

text \<open>
  The topic \<^verbatim>\<open>/cam0/data\<close> against \<^verbatim>\<open>/cam\d+\<close>, \<^verbatim>\<open>/cam.*\<close> and \<^verbatim>\<open>/cam0.*\<close> in this order:
  the first matches only the part \<^verbatim>\<open>/cam0\<close> and is passed over, the second and the third
  both match in full, and the second is used.
\<close>

theorem first_full_match_wins_witness:
  "check_topic_frequencies [cam_stat] Map.empty cam_rules =
     [\<lparr>result_topic = ''/cam0/data'', frequency = Finite 20, expected_range = ''[10.0, 30.0]'',
       status = ''OK'', config_source = ''Regex match: /cam.*''\<rparr>]"
proof -
  have t: "topic cam_stat = ''/cam0/data''"
    by (simp add: cam_stat_def)
  have h1: "Map.empty (topic cam_stat) = (None :: hz_config option)"
    by simp
  have h2: "1 < length cam_rules"
    by (simp add: cam_rules_def)
  have h3: "fullmatch (fst (cam_rules ! 1)) (topic cam_stat)"
    by (simp add: cam_rules_def t cam_any_matches)
  have h4: "\<forall>k<1. \<not> fullmatch (fst (cam_rules ! k)) (topic cam_stat)"
    by (simp add: cam_rules_def t cam_digits_matches)
  have p: "pattern (fst (cam_rules ! 1)) = ''/cam.*''"
    by (simp add: cam_rules_def compiled_def)
  have c: "snd (cam_rules ! 1) = \<lparr>min_hz = Finite 10, max_hz = Finite 30\<rparr>"
    by (simp add: cam_rules_def)
  have "check_topic_frequencies [cam_stat] Map.empty cam_rules =
           [\<lparr>result_topic = topic cam_stat, frequency = message_frequency cam_stat,
             expected_range = range_text (snd (cam_rules ! 1)),
             status = range_status (snd (cam_rules ! 1)) (message_frequency cam_stat),
             config_source = ''Regex match: '' @ pattern (fst (cam_rules ! 1))\<rparr>]"
    by (rule first_full_match_wins [OF h1 h2 h3 h4])
  then show ?thesis
    unfolding p c t
    by (simp add: cam_stat_def range_text_def range_status_def float_repr_10 float_repr_30
        float_le_def)
qed

text \<open>
  Claim C5.  The validator returns one result for each statistic, in the same order, with
  the statistic's topic and frequency; it has no failing branch.  A statistic whose topic
  is no key of the exact map and is matched in full by no pattern has the status
  \<^verbatim>\<open>Config Not Found\<close> (the spec's ConfigNotFound), the range \<^verbatim>\<open>N/A\<close> and the source
  \<^verbatim>\<open>N/A\<close>, whatever its frequency.
\<close>

theorem validator_total:
  "length (check_topic_frequencies sts ex rx) = length sts
   \<and> map result_topic (check_topic_frequencies sts ex rx) = map topic sts
   \<and> map frequency (check_topic_frequencies sts ex rx) = map message_frequency sts
   \<and> (\<forall>i<length sts.
         ex (topic (sts ! i)) = None \<and> (\<forall>pc\<in>set rx. \<not> fullmatch (fst pc) (topic (sts ! i)))
         \<longrightarrow> status (check_topic_frequencies sts ex rx ! i) = ''Config Not Found''
             \<and> expected_range (check_topic_frequencies sts ex rx ! i) = ''N/A''
             \<and> config_source (check_topic_frequencies sts ex rx ! i) = ''N/A'')"
  by (simp add: check_topic_frequencies_def result_topic_check_one frequency_check_one
      check_one_no_rule comp_def)

text \<open>A store with no rule at all: every statistic, also one with a NaN frequency, is unmatched.\<close>

theorem validator_total_witness:
  "map status (check_topic_frequencies [foo_stat (Finite 3), foo_stat NaN] Map.empty [])
     = [''Config Not Found'', ''Config Not Found'']
   \<and> map expected_range (check_topic_frequencies [foo_stat (Finite 3), foo_stat NaN] Map.empty [])
     = [''N/A'', ''N/A'']
   \<and> map config_source (check_topic_frequencies [foo_stat (Finite 3), foo_stat NaN] Map.empty [])
     = [''N/A'', ''N/A'']"
proof -
  let ?sts = "[foo_stat (Finite 3), foo_stat NaN]"
  let ?res = "check_topic_frequencies ?sts Map.empty []"
  have l: "length ?res = 2"
    using validator_total [of ?sts Map.empty "[]"] by simp
  have a: "status (?res ! i) = ''Config Not Found'' \<and> expected_range (?res ! i) = ''N/A''
           \<and> config_source (?res ! i) = ''N/A''" if "i < 2" for i
    using validator_total [of ?sts Map.empty "[]"] that by simp
  obtain r0 r1 where e: "?res = [r0, r1]"
    using l by (auto simp: length_Suc_conv numeral_2_eq_2)
  show ?thesis
    using a [of 0] a [of 1] unfolding e by simp
qed

section \<open>The loader\<close>

lemma sublist_singleton: "sublist [c] s \<longleftrightarrow> c \<in> set s"
  by (induction s) (auto simp: sublist_Cons_right)

lemma any_char_in_str: "any_char_in cs (YStr s) = Inr (\<exists>c\<in>set cs. c \<in> set s)"
  by (induction cs) (auto simp: sublist_singleton)

lemma make_config_ints:
  "\<bar>a\<bar> < 2 ^ 53 \<Longrightarrow> \<bar>b\<bar> < 2 ^ 53 \<Longrightarrow>
   make_config (YList [YInt a, YInt b]) = Inr \<lparr>min_hz = Finite (of_int a), max_hz = Finite (of_int b)\<rparr>"
  by (simp add: make_config_def float_of_int_exact)

lemma dict_get_entry [simp]:
  "dict_get (entry name hz) ''name'' = Inr (YStr name)"
  "dict_get (entry name hz) ''hz_range'' = Inr hz"
  by (simp_all add: entry_def)

lemma dict_get_name_only [simp]:
  "dict_get (name_only name) ''name'' = Inr (YStr name)"
  "dict_get (name_only name) ''hz_range'' = Inr YNull"
  by (simp_all add: name_only_def)

lemma document_entries_topics_doc [simp]: "document_entries (topics_doc es) = Inr es"
  by (simp add: document_entries_def topics_doc_def)

text \<open>A well-formed exact entry is stored.\<close>

lemma entry_effect_exact:
  assumes "name \<noteq> []" and "\<forall>c\<in>set metachars. c \<notin> set name"
    and "\<bar>a\<bar> < 2 ^ 53" and "\<bar>b\<bar> < 2 ^ 53"
  shows "entry_effect rc fp (entry name (YList [YInt a, YInt b])) =
           Store_exact name \<lparr>min_hz = Finite (of_int a), max_hz = Finite (of_int b)\<rparr>"
proof -
  have "\<not> (\<exists>c\<in>set metachars. c \<in> set name)" using assms(2) by blast
  then have a: "any_char_in metachars (YStr name) = Inr False"
    by (simp only: any_char_in_str)
  have g: "entry_guard (YStr name) (YList [YInt a, YInt b]) = Inr True"
    using assms(1) by (simp add: entry_guard_def)
  have t: "try_block rc (YStr name) (YList [YInt a, YInt b]) =
             Inr (Store_exact name \<lparr>min_hz = Finite (of_int a), max_hz = Finite (of_int b)\<rparr>)"
    unfolding try_block_def make_config_ints [OF assms(3,4)] a
    by simp
  show ?thesis
    unfolding entry_effect_def dict_get_entry by (simp add: g t)
qed

text \<open>A well-formed pattern entry is appended, if the pattern compiles.\<close>

lemma entry_effect_regex:
  assumes "c \<in> set metachars" and "c \<in> set name" and "rc name = Inr m"
    and "\<bar>a\<bar> < 2 ^ 53" and "\<bar>b\<bar> < 2 ^ 53"
  shows "entry_effect rc fp (entry name (YList [YInt a, YInt b])) =
           Append_regex \<lparr>pattern = name, fullmatch = m\<rparr>
             \<lparr>min_hz = Finite (of_int a), max_hz = Finite (of_int b)\<rparr>"
proof -
  have n: "name \<noteq> []" using assms(2) by auto
  have "\<exists>c\<in>set metachars. c \<in> set name" using assms(1,2) by blast
  then have a: "any_char_in metachars (YStr name) = Inr True"
    by (simp only: any_char_in_str)
  have g: "entry_guard (YStr name) (YList [YInt a, YInt b]) = Inr True"
    using n by (simp add: entry_guard_def)
  have t: "try_block rc (YStr name) (YList [YInt a, YInt b]) =
             Inr (Append_regex \<lparr>pattern = name, fullmatch = m\<rparr>
                   \<lparr>min_hz = Finite (of_int a), max_hz = Finite (of_int b)\<rparr>)"
    unfolding try_block_def make_config_ints [OF assms(4,5)] a
    by (simp add: assms(3))
  show ?thesis
    unfolding entry_effect_def dict_get_entry by (simp add: g t)
qed

text \<open>
  A pattern entry whose compilation raises: \<^verbatim>\<open>re.error\<close> gives the warning for the pattern
  and \<^verbatim>\<open>ValueError\<close> the warning of the \<^verbatim>\<open>except ValueError\<close> handler; any other exception
  leaves the loop.
\<close>

lemma entry_effect_compile_raises:
  assumes "c \<in> set metachars" and "c \<in> set name" and "rc name = Inl x"
    and "\<bar>a\<bar> < 2 ^ 53" and "\<bar>b\<bar> < 2 ^ 53"
  shows "entry_effect rc fp (entry name (YList [YInt a, YInt b])) =
           (if x = ValueError
            then Warn (Warning_invalid_hz_range (YStr name) fp (YList [YInt a, YInt b]))
            else if x = ReError then Warn (Warning_invalid_regex (YStr name) fp)
            else Raise x)"
proof -
  have n: "name \<noteq> []" using assms(2) by auto
  have "\<exists>c\<in>set metachars. c \<in> set name" using assms(1,2) by blast
  then have a: "any_char_in metachars (YStr name) = Inr True"
    by (simp only: any_char_in_str)
  have g: "entry_guard (YStr name) (YList [YInt a, YInt b]) = Inr True"
    using n by (simp add: entry_guard_def)
  have t: "try_block rc (YStr name) (YList [YInt a, YInt b]) = Inl x"
    unfolding try_block_def make_config_ints [OF assms(4,5)] a
    by (simp add: assms(3))
  show ?thesis
    unfolding entry_effect_def dict_get_entry by (simp add: g t)
qed

lemma exact_entries_append: "exact_entries (xs @ ys) = exact_entries xs @ exact_entries ys"
  by (induction xs rule: exact_entries.induct) auto

lemma regex_entries_append: "regex_entries (xs @ ys) = regex_entries xs @ regex_entries ys"
  by (induction xs rule: regex_entries.induct) auto

lemma map_upd_add_snoc: "m(k \<mapsto> v) ++ map_of xs = m ++ map_of (xs @ [(k, v)])"
  by (rule ext) (simp add: map_add_def split: option.splits)

text \<open>The loop over the entries, in terms of the effects up to the first that raises.\<close>

lemma run_entries_stores:
  "exact_match_configs (fst (run_entries rc fp st es)) =
     exact_match_configs st
       ++ map_of (rev (exact_entries (takeWhile (\<lambda>eff. \<not> is_raise eff) (map (entry_effect rc fp) es))))
   \<and> regex_configs (fst (run_entries rc fp st es)) =
     regex_configs st
       @ regex_entries (takeWhile (\<lambda>eff. \<not> is_raise eff) (map (entry_effect rc fp) es))"
proof (induction es arbitrary: st)
  case Nil
  then show ?case by simp
next
  case (Cons e es)
  show ?case
  proof (cases "entry_effect rc fp e")
    case Skip
    then show ?thesis using Cons.IH [of st] by simp
  next
    case (Warn ev)
    then show ?thesis using Cons.IH [of "st\<lparr>logged := logged st @ [ev]\<rparr>"] by simp
  next
    case (Store_exact name config)
    then show ?thesis
      using Cons.IH [of "st\<lparr>exact_match_configs := (exact_match_configs st)(name \<mapsto> config)\<rparr>"]
      by (simp add: map_add_def fun_eq_iff split: option.splits)
  next
    case (Append_regex p config)
    then show ?thesis
      using Cons.IH [of "st\<lparr>regex_configs := regex_configs st @ [(p, config)]\<rparr>"] by simp
  next
    case (Raise x)
    then show ?thesis by simp
  qed
qed

lemma load_file_stores:
  "exact_match_configs (load_file rc st f) =
     exact_match_configs st ++ map_of (rev (exact_entries (file_effects rc f)))
   \<and> regex_configs (load_file rc st f) = regex_configs st @ regex_entries (file_effects rc f)"
proof -
  obtain fp r where f: "f = (fp, r)" by (cases f)
  show ?thesis
  proof (cases r)
    case (Loaded data)
    show ?thesis
    proof (cases "document_entries data")
      case (Inl e)
      then show ?thesis by (simp add: f Loaded load_document_def add_log_def)
    next
      case (Inr es)
      obtain st' x where r: "run_entries rc fp st es = (st', x)" by (cases "run_entries rc fp st es")
      have "exact_match_configs st' =
              exact_match_configs st ++ map_of (rev (exact_entries
                (takeWhile (\<lambda>eff. \<not> is_raise eff) (map (entry_effect rc fp) es))))
            \<and> regex_configs st' =
              regex_configs st @ regex_entries
                (takeWhile (\<lambda>eff. \<not> is_raise eff) (map (entry_effect rc fp) es))"
        using run_entries_stores [of rc fp st es] by (simp add: r)
      then show ?thesis
        by (cases x) (simp_all add: f Loaded Inr load_document_def r add_log_def)
    qed
  qed (simp_all add: f add_log_def)
qed

lemma foldl_load_file_stores:
  "exact_match_configs (foldl (load_file rc) st files) =
     exact_match_configs st ++ map_of (rev (exact_entries (all_effects rc files)))
   \<and> regex_configs (foldl (load_file rc) st files) =
     regex_configs st @ regex_entries (all_effects rc files)"
proof (induction files arbitrary: st)
  case Nil
  then show ?case by (simp add: all_effects_def)
next
  case (Cons f files)
  show ?case
    using Cons.IH [of "load_file rc st f"] load_file_stores [of rc st f]
    by (simp add: all_effects_def exact_entries_append regex_entries_append)
qed

lemma map_of_rev_last:
  assumes "xs = pre @ (k, v) # post" and "k \<notin> fst ` set post"
  shows "map_of (rev xs) k = Some v"
proof -
  have "map_of (rev post) k = None"
    using assms(2) by (simp add: map_of_eq_None_iff)
  then show ?thesis
    by (simp add: assms(1) map_add_def)
qed

text \<open>
  Claim C9.  For every list of sources, the exact map the loader returns gives each name
  the range of the last exact entry with that name among the entries it processed (the
  sources in their order, the entries of a source in theirs), and the pattern list is the
  list of the pattern entries it processed, in that same order.
\<close>

theorem rule_store_contents:
  "exact_match_configs (load_hz_range_config_from_files rc files) =
     map_of (rev (exact_entries (all_effects rc files)))
   \<and> regex_configs (load_hz_range_config_from_files rc files) =
     regex_entries (all_effects rc files)
   \<and> (\<forall>name cfg pre post.
         exact_entries (all_effects rc files) = pre @ (name, cfg) # post
         \<and> name \<notin> fst ` set post
         \<longrightarrow> exact_match_configs (load_hz_range_config_from_files rc files) name = Some cfg)"
proof -
  have s: "exact_match_configs (load_hz_range_config_from_files rc files) =
             map_of (rev (exact_entries (all_effects rc files)))
           \<and> regex_configs (load_hz_range_config_from_files rc files) =
             regex_entries (all_effects rc files)"
    using foldl_load_file_stores [of rc empty_state files]
    by (simp add: load_hz_range_config_from_files_def empty_state_def)
  have "exact_match_configs (load_hz_range_config_from_files rc files) name = Some cfg"
    if "exact_entries (all_effects rc files) = pre @ (name, cfg) # post"
      and "name \<notin> fst ` set post" for name cfg pre post
    using map_of_rev_last [OF that] s by simp
  with s show ?thesis
    by blast
qed


text \<open>The loader on the example sources.\<close>

lemma no_metachar_odom: "\<forall>c\<in>set metachars. c \<notin> set ''/odom''"
  by (simp add: metachars_def backslash_def)

lemma entry_effect_odom:
  "\<bar>a\<bar> < 2 ^ 53 \<Longrightarrow> \<bar>b\<bar> < 2 ^ 53 \<Longrightarrow>
   entry_effect rc fp (entry ''/odom'' (YList [YInt a, YInt b])) =
     Store_exact ''/odom'' \<lparr>min_hz = Finite (of_int a), max_hz = Finite (of_int b)\<rparr>"
  by (rule entry_effect_exact [OF _ no_metachar_odom]) simp_all

lemma mini_compile_examples:
  "mini_compile cam_digits = Inr (fullmatch (compiled cam_digits))"
  "mini_compile ''/cam.*'' = Inr (fullmatch (compiled ''/cam.*''))"
  by (simp_all add: compiled_def mini_compile_def parse_cam_digits parse_cam_any)

lemma compiled_eq: "\<lparr>pattern = p, fullmatch = fullmatch (compiled p)\<rparr> = compiled p"
  by (simp add: compiled_def)

lemma entry_effect_cam_digits:
  "entry_effect mini_compile fp (entry cam_digits (YList [YInt 1, YInt 5])) =
     Append_regex (compiled cam_digits) \<lparr>min_hz = Finite 1, max_hz = Finite 5\<rparr>"
proof -
  have "CHR ''+'' \<in> set metachars" "CHR ''+'' \<in> set cam_digits"
    by (simp_all add: metachars_def cam_digits_def)
  then show ?thesis
    using entry_effect_regex [of "CHR ''+''" cam_digits mini_compile
        "fullmatch (compiled cam_digits)" 1 5 fp]
    by (simp add: mini_compile_examples compiled_eq)
qed

lemma entry_effect_cam_any:
  "entry_effect mini_compile fp (entry ''/cam.*'' (YList [YInt 10, YInt 30])) =
     Append_regex (compiled ''/cam.*'') \<lparr>min_hz = Finite 10, max_hz = Finite 30\<rparr>"
proof -
  have "CHR ''*'' \<in> set metachars" "CHR ''*'' \<in> set ''/cam.*''"
    by (simp_all add: metachars_def)
  then show ?thesis
    using entry_effect_regex [of "CHR ''*''" "''/cam.*''" mini_compile
        "fullmatch (compiled ''/cam.*'')" 10 30 fp]
    by (simp add: mini_compile_examples compiled_eq)
qed

lemma load_odom:
  "load_hz_range_config_from_files rc [(fp, Loaded odom_doc)] =
     \<lparr>exact_match_configs = [''/odom'' \<mapsto> \<lparr>min_hz = Finite 10, max_hz = Finite 30\<rparr>],
      regex_configs = [], logged = []\<rparr>"
  by (simp add: load_hz_range_config_from_files_def load_document_def odom_doc_def
      entry_effect_odom empty_state_def)

lemma all_effects_two_sources:
  "all_effects mini_compile [(''a.yaml'', Loaded first_doc), (''b.yaml'', Loaded second_doc)] =
     [Store_exact ''/odom'' \<lparr>min_hz = Finite 1, max_hz = Finite 5\<rparr>,
      Append_regex (compiled cam_digits) \<lparr>min_hz = Finite 1, max_hz = Finite 5\<rparr>,
      Append_regex (compiled ''/cam.*'') \<lparr>min_hz = Finite 10, max_hz = Finite 30\<rparr>,
      Store_exact ''/odom'' \<lparr>min_hz = Finite 10, max_hz = Finite 30\<rparr>]"
  by (simp add: all_effects_def first_doc_def second_doc_def entry_effect_odom
      entry_effect_cam_digits entry_effect_cam_any)

text \<open>
  The two sources: \<^verbatim>\<open>/odom\<close> has the range of the second source, and the patterns stand in
  the order of their registration.
\<close>

theorem rule_store_contents_witness:
  "exact_match_configs (load_hz_range_config_from_files mini_compile
      [(''a.yaml'', Loaded first_doc), (''b.yaml'', Loaded second_doc)]) ''/odom''
     = Some \<lparr>min_hz = Finite 10, max_hz = Finite 30\<rparr>
   \<and> regex_configs (load_hz_range_config_from_files mini_compile
      [(''a.yaml'', Loaded first_doc), (''b.yaml'', Loaded second_doc)])
     = [(compiled cam_digits, \<lparr>min_hz = Finite 1, max_hz = Finite 5\<rparr>),
        (compiled ''/cam.*'', \<lparr>min_hz = Finite 10, max_hz = Finite 30\<rparr>)]"
proof -
  let ?files = "[(''a.yaml'', Loaded first_doc), (''b.yaml'', Loaded second_doc)]"
  note t = rule_store_contents [of mini_compile ?files]
  have e: "exact_entries (all_effects mini_compile ?files) =
      [(''/odom'', \<lparr>min_hz = Finite 1, max_hz = Finite 5\<rparr>)]
        @ (''/odom'', \<lparr>min_hz = Finite 10, max_hz = Finite 30\<rparr>) # []"
    by (simp add: all_effects_two_sources)
  have n: "''/odom'' \<notin> fst ` set ([] :: (string \<times> hz_config) list)"
    by simp
  from t e n have a: "exact_match_configs (load_hz_range_config_from_files mini_compile ?files)
      ''/odom'' = Some \<lparr>min_hz = Finite 10, max_hz = Finite 30\<rparr>"
    by blast
  from t have b: "regex_configs (load_hz_range_config_from_files mini_compile ?files) =
     [(compiled cam_digits, \<lparr>min_hz = Finite 1, max_hz = Finite 5\<rparr>),
      (compiled ''/cam.*'', \<lparr>min_hz = Finite 10, max_hz = Finite 30\<rparr>)]"
    by (simp add: all_effects_two_sources)
  from a b show ?thesis
    by (rule conjI)
qed

text \<open>
  Claim C2, as amended.  The store built from the single source
  \<^verbatim>\<open>{topics: [{name: "/odom", hz_range: [10, 30]}]}\<close> gives the statistic
  \<^verbatim>\<open>{topic: "/odom", frequency: 20}\<close> the status \<^verbatim>\<open>OK\<close> and the range text
  \<^verbatim>\<open>[10.0, 30.0]\<close>: the bounds are converted with \<^verbatim>\<open>float\<close> and printed as floats.
\<close>

theorem odom_round_trip:
  "check_topic_frequencies [odom_stat]
     (exact_match_configs (load_hz_range_config_from_files rc [(fp, Loaded odom_doc)]))
     (regex_configs (load_hz_range_config_from_files rc [(fp, Loaded odom_doc)]))
   = [\<lparr>result_topic = ''/odom'', frequency = Finite 20, expected_range = ''[10.0, 30.0]'',
       status = ''OK'', config_source = ''Exact match: /odom''\<rparr>]"
  by (simp add: load_odom check_topic_frequencies_def check_one_def find_config_def Let_def
      odom_stat_def float_repr_10 float_repr_30 float_le_def)

text \<open>Claim C2 as the spec words it fails: the range text is not \<^verbatim>\<open>[10, 30]\<close>.\<close>

theorem odom_range_text_counterexample:
  "expected_range (hd (check_topic_frequencies [odom_stat]
     (exact_match_configs
        (load_hz_range_config_from_files mini_compile [(''config.yaml'', Loaded odom_doc)]))
     (regex_configs
        (load_hz_range_config_from_files mini_compile [(''config.yaml'', Loaded odom_doc)]))))
   = ''[10.0, 30.0]''
   \<and> expected_range (hd (check_topic_frequencies [odom_stat]
     (exact_match_configs
        (load_hz_range_config_from_files mini_compile [(''config.yaml'', Loaded odom_doc)]))
     (regex_configs
        (load_hz_range_config_from_files mini_compile [(''config.yaml'', Loaded odom_doc)]))))
   \<noteq> ''[10, 30]''"
  by (simp add: load_odom check_topic_frequencies_def check_one_def find_config_def Let_def
      odom_stat_def float_repr_10 float_repr_30)

text \<open>Entries the guard of the loop body rejects, and entries whose bounds \<^verbatim>\<open>float\<close> rejects.\<close>

lemma entry_effect_skip:
  assumes "dict_get e ''name'' = Inr name" and "dict_get e ''hz_range'' = Inr hz"
    and "hz = YNull \<or> (\<exists>l. hz = YList l \<and> length l \<noteq> 2)"
  shows "entry_effect rc fp e = Skip"
proof -
  have "entry_guard name hz = Inr False"
    using assms(3) by (cases "truthy name") (auto simp: entry_guard_def)
  then show ?thesis
    by (simp add: entry_effect_def assms(1,2))
qed

lemma entry_effect_warn:
  assumes "dict_get e ''name'' = Inr name" and "dict_get e ''hz_range'' = Inr hz"
    and "truthy name" and "hz = YList [a, b]"
    and "py_float a = Inl ValueError \<or> (\<exists>x. py_float a = Inr x) \<and> py_float b = Inl ValueError"
  shows "entry_effect rc fp e = Warn (Warning_invalid_hz_range name fp hz)"
proof -
  have g: "entry_guard name hz = Inr True"
    using assms(3,4) by (simp add: entry_guard_def)
  have "make_config hz = Inl ValueError"
    using assms(4,5) by (auto simp: make_config_def)
  then have "try_block rc name hz = Inl ValueError"
    by (simp add: try_block_def)
  then show ?thesis
    by (simp add: entry_effect_def assms(1,2) g)
qed

text \<open>
  Claim C7, as amended.  For an entry that is a mapping: when its \<^verbatim>\<open>hz_range\<close> is absent
  (or null), or is a list whose length is not 2, the loop goes on with the next entry in
  the state it was in: the entry is dropped and nothing is logged.  When its name is
  non-empty and its \<^verbatim>\<open>hz_range\<close> is a list of two bounds of which the first that \<^verbatim>\<open>float\<close>
  cannot convert is a string it rejects, the loop goes on with the next entry after one
  warning for this entry, the stores untouched.
\<close>

theorem invalid_range_entry_discarded:
  assumes "dict_get e ''name'' = Inr name" and "dict_get e ''hz_range'' = Inr hz"
  shows "(hz = YNull \<or> (\<exists>l. hz = YList l \<and> length l \<noteq> 2)
            \<longrightarrow> run_entries rc fp st (e # rest) = run_entries rc fp st rest)
       \<and> (truthy name
          \<and> (\<exists>a b. hz = YList [a, b]
                \<and> (py_float a = Inl ValueError
                   \<or> (\<exists>x. py_float a = Inr x) \<and> py_float b = Inl ValueError))
            \<longrightarrow> run_entries rc fp st (e # rest) =
                  run_entries rc fp (add_log st (Warning_invalid_hz_range name fp hz)) rest)"
proof (intro conjI impI)
  assume "hz = YNull \<or> (\<exists>l. hz = YList l \<and> length l \<noteq> 2)"
  then have "entry_effect rc fp e = Skip"
    using assms by (intro entry_effect_skip)
  then show "run_entries rc fp st (e # rest) = run_entries rc fp st rest"
    by simp
next
  assume a: "truthy name
     \<and> (\<exists>a b. hz = YList [a, b]
           \<and> (py_float a = Inl ValueError
              \<or> (\<exists>x. py_float a = Inr x) \<and> py_float b = Inl ValueError))"
  then obtain a b where "hz = YList [a, b]"
    and "py_float a = Inl ValueError \<or> (\<exists>x. py_float a = Inr x) \<and> py_float b = Inl ValueError"
    by blast
  then have "entry_effect rc fp e = Warn (Warning_invalid_hz_range name fp hz)"
    using assms a by (intro entry_effect_warn) auto
  then show "run_entries rc fp st (e # rest) =
      run_entries rc fp (add_log st (Warning_invalid_hz_range name fp hz)) rest"
    by (simp add: add_log_def)
qed

lemma float_of_str_letter: "float_of_str ''a'' = None"
  by code_simp

text \<open>
  The source with three bad entries and a good one: the good one is loaded, and the only
  log entry is the warning for the bounds \<^verbatim>\<open>["a", "b"]\<close>.
\<close>

theorem invalid_range_entry_discarded_witness:
  "load_hz_range_config_from_files mini_compile [(''a.yaml'', Loaded faulty_doc)] =
     \<lparr>exact_match_configs = [''/odom'' \<mapsto> \<lparr>min_hz = Finite 10, max_hz = Finite 30\<rparr>],
      regex_configs = [],
      logged = [Warning_invalid_hz_range (YStr ''/bad'') ''a.yaml'' (YList [YStr ''a'', YStr ''b''])]\<rparr>"
proof -
  let ?good = "entry ''/odom'' (YList [YInt 10, YInt 30])"
  let ?bad = "entry ''/bad'' (YList [YStr ''a'', YStr ''b''])"
  let ?three = "entry ''/three'' (YList [YInt 1, YInt 2, YInt 3])"
  let ?w = "Warning_invalid_hz_range (YStr ''/bad'') ''a.yaml'' (YList [YStr ''a'', YStr ''b''])"
  have 1: "run_entries mini_compile ''a.yaml'' empty_state [name_only ''/a'', ?three, ?bad, ?good]
         = run_entries mini_compile ''a.yaml'' empty_state [?three, ?bad, ?good]"
    using invalid_range_entry_discarded [of "name_only ''/a''" "YStr ''/a''" YNull
        mini_compile "''a.yaml''" empty_state "[?three, ?bad, ?good]"]
    by simp
  have 2: "run_entries mini_compile ''a.yaml'' empty_state [?three, ?bad, ?good]
         = run_entries mini_compile ''a.yaml'' empty_state [?bad, ?good]"
    using invalid_range_entry_discarded [of ?three "YStr ''/three''" "YList [YInt 1, YInt 2, YInt 3]"
        mini_compile "''a.yaml''" empty_state "[?bad, ?good]"]
    by simp
  have 3: "run_entries mini_compile ''a.yaml'' empty_state [?bad, ?good]
         = run_entries mini_compile ''a.yaml'' (add_log empty_state ?w) [?good]"
    using invalid_range_entry_discarded [of ?bad "YStr ''/bad''" "YList [YStr ''a'', YStr ''b'']"
        mini_compile "''a.yaml''" empty_state "[?good]"]
    by (simp add: float_of_str_letter)
  have 4: "run_entries mini_compile ''a.yaml'' (add_log empty_state ?w) [?good] =
      (\<lparr>exact_match_configs = [''/odom'' \<mapsto> \<lparr>min_hz = Finite 10, max_hz = Finite 30\<rparr>],
        regex_configs = [], logged = [?w]\<rparr>, None)"
    by (simp add: entry_effect_odom add_log_def empty_state_def)
  have "run_entries mini_compile ''a.yaml'' empty_state [name_only ''/a'', ?three, ?bad, ?good] =
      (\<lparr>exact_match_configs = [''/odom'' \<mapsto> \<lparr>min_hz = Finite 10, max_hz = Finite 30\<rparr>],
        regex_configs = [], logged = [?w]\<rparr>, None)"
    by (simp only: 1 2 3 4)
  then show ?thesis
    by (simp add: load_hz_range_config_from_files_def load_document_def faulty_doc_def
        del: run_entries.simps)
qed

text \<open>
  Claim C7 as the spec words it fails on the report: the entry without \<^verbatim>\<open>hz_range\<close> is
  dropped and the next one is loaded, but nothing is logged for it.
\<close>

theorem missing_range_not_reported_counterexample:
  "load_hz_range_config_from_files mini_compile [(''a.yaml'', Loaded missing_range_doc)] =
     \<lparr>exact_match_configs = [''/odom'' \<mapsto> \<lparr>min_hz = Finite 10, max_hz = Finite 30\<rparr>],
      regex_configs = [], logged = []\<rparr>"
proof -
  have "entry_effect mini_compile ''a.yaml'' (name_only ''/a'') = Skip"
    by (rule entry_effect_skip [of _ "YStr ''/a''" YNull]) simp_all
  then show ?thesis
    by (simp add: load_hz_range_config_from_files_def load_document_def missing_range_doc_def
        entry_effect_odom empty_state_def)
qed

text \<open>
  A pattern on which \<^verbatim>\<open>re.compile\<close> raises \<^verbatim>\<open>OverflowError\<close>, as it does on
  \<^verbatim>\<open>/a{4294967296}\<close>: the exception ends the loop over the entries of that source, and the
  entry \<^verbatim>\<open>/odom\<close> after it is not loaded.
\<close>

lemma compile_overflow_ends_source:
  assumes "rc ''/a{4294967296}'' = Inl OverflowError"
  shows "load_hz_range_config_from_files rc
           [(fp, Loaded (topics_doc [entry ''/a{4294967296}'' (YList [YInt 1, YInt 5]),
                                     entry ''/odom'' (YList [YInt 10, YInt 30])]))] =
         \<lparr>exact_match_configs = Map.empty, regex_configs = [],
          logged = [Error_unexpected fp OverflowError]\<rparr>"
proof -
  have "CHR ''{'' \<in> set metachars" "CHR ''{'' \<in> set ''/a{4294967296}''"
    by (simp_all add: metachars_def)
  then have "entry_effect rc fp (entry ''/a{4294967296}'' (YList [YInt 1, YInt 5])) =
      Raise OverflowError"
    using entry_effect_compile_raises [of "CHR ''{''" "''/a{4294967296}''" rc OverflowError 1 5 fp]
      assms
    by simp
  then show ?thesis
    by (simp add: load_hz_range_config_from_files_def load_document_def add_log_def
        empty_state_def)
qed

text \<open>
  A bound that is no string and no number is not caught by the inner \<^verbatim>\<open>try\<close>: a \<^verbatim>\<open>null\<close>
  bound raises \<^verbatim>\<open>TypeError\<close>, which ends the loop over the entries of that source; the
  entries after it are not loaded.
\<close>

lemma null_bound_ends_source:
  "load_hz_range_config_from_files mini_compile [(''a.yaml'', Loaded null_bound_doc)] =
     \<lparr>exact_match_configs = Map.empty, regex_configs = [],
      logged = [Error_unexpected ''a.yaml'' TypeError]\<rparr>"
proof -
  have "make_config (YList [YNull, YInt 5]) = Inl TypeError"
    by (simp add: make_config_def)
  then have "entry_effect mini_compile ''a.yaml'' (entry ''/n'' (YList [YNull, YInt 5])) = Raise TypeError"
    by (simp add: entry_effect_def entry_guard_def try_block_def)
  then show ?thesis
    by (simp add: load_hz_range_config_from_files_def load_document_def null_bound_doc_def
        add_log_def empty_state_def)
qed

section \<open>The extractor\<close>

text \<open>
  Claim C6: the code departs from it.  The frequency token \<^verbatim>\<open>[\d.]+\<close> admits texts that
  \<^verbatim>\<open>float\<close> rejects; on the block below, whose token is \<^verbatim>\<open>1.2.3\<close>, the function raises
  \<^verbatim>\<open>ValueError\<close> instead of returning.
\<close>

theorem dotted_frequency_raises:
  "parse_ros_topic_statistics dotted_record = Inl ValueError"
  unfolding dotted_record_def by code_simp

text \<open>The token \<^verbatim>\<open>nan\<close> itself is never given to \<^verbatim>\<open>float\<close>: it becomes NaN.\<close>

lemma nan_token:
  "group3 m = ''nan'' \<Longrightarrow> length (group2 m) \<le> int_max_str_digits \<Longrightarrow>
   stat_of_match m =
     Inr \<lparr>topic = strip (group1 m), message_count = int (nat_of_digits (group2 m)),
          message_frequency = NaN\<rparr>"
  by (simp add: stat_of_match_def int_of_digits_def)

lemma strip_no_outer_space:
  "strip s = [] \<or> (\<not> is_space (hd (strip s)) \<and> \<not> is_space (last (strip s)))"
proof (cases "strip s = []")
  case True
  then show ?thesis by simp
next
  case False
  define t where "t = dropWhile is_space s"
  define u where "u = dropWhile is_space (rev t)"
  have s: "strip s = rev u"
    by (simp add: strip_def t_def u_def)
  have u: "u \<noteq> []"
    using False s by simp
  then have "\<not> is_space (hd u)"
    unfolding u_def by (rule hd_dropWhile)
  then have l: "\<not> is_space (last (strip s))"
    using u by (simp add: s last_rev)
  have "suffix u (rev t)"
    unfolding u_def by (rule suffix_dropWhile)
  then obtain p where p: "rev t = p @ u"
    by (auto simp: suffix_def)
  have t: "t \<noteq> []"
    using p u by auto
  then have "\<not> is_space (hd t)"
    unfolding t_def by (rule hd_dropWhile)
  moreover have "last u = hd t"
    using p u t by (metis last_appendR last_rev)
  ultimately have "\<not> is_space (hd (strip s))"
    using u by (simp add: s hd_rev)
  with l show ?thesis by simp
qed

lemma strip_all_space:
  assumes "\<forall>c\<in>set s. is_space c"
  shows "strip s = []"
proof -
  have d: "dropWhile is_space s = []"
    using assms by simp
  show ?thesis
    unfolding strip_def d by simp
qed

lemma topic_stat_of_match: "stat_of_match m = Inr st \<Longrightarrow> topic st = strip (group1 m)"
  by (auto simp: stat_of_match_def Let_def split: if_splits option.splits)

lemma collect_stats_topics:
  "collect_stats ms = Inr sts \<Longrightarrow> map topic sts = map (\<lambda>m. strip (group1 m)) ms"
proof (induction ms arbitrary: sts)
  case Nil
  then show ?case by simp
next
  case (Cons m ms)
  from Cons.prems obtain st rest where
    "stat_of_match m = Inr st" "collect_stats ms = Inr rest" "sts = st # rest"
    by (auto split: sum.splits)
  then show ?case
    using Cons.IH [of rest] by (simp add: topic_stat_of_match)
qed

text \<open>
  Claim C10.  When the extractor returns, the topic of each statistic is group 1 of its
  match with \<^verbatim>\<open>strip\<close> applied: it is empty or neither begins nor ends with whitespace, and
  it is empty when group 1 is whitespace only.
\<close>

theorem topic_is_stripped_name:
  assumes "parse_ros_topic_statistics s = Inr sts"
  shows "map topic sts = map (\<lambda>m. strip (group1 m)) (finditer (strip_ansi s))
       \<and> (\<forall>st\<in>set sts. topic st = []
             \<or> (\<not> is_space (hd (topic st)) \<and> \<not> is_space (last (topic st))))
       \<and> (\<forall>i<length sts. (\<forall>c\<in>set (group1 (finditer (strip_ansi s) ! i)). is_space c)
             \<longrightarrow> topic (sts ! i) = [])"
proof -
  let ?ms = "finditer (strip_ansi s)"
  have m: "map topic sts = map (\<lambda>m. strip (group1 m)) ?ms"
    using assms by (intro collect_stats_topics) (simp add: parse_ros_topic_statistics_def)
  then have len: "length sts = length ?ms"
    by (metis length_map)
  have n: "topic (sts ! i) = strip (group1 (?ms ! i))" if "i < length sts" for i
    using that m len by (metis nth_map)
  have a: "topic st = [] \<or> (\<not> is_space (hd (topic st)) \<and> \<not> is_space (last (topic st)))"
    if "st \<in> set sts" for st
  proof -
    from that obtain i where "i < length sts" "st = sts ! i"
      by (auto simp: in_set_conv_nth)
    then show ?thesis
      using n [of i] strip_no_outer_space [of "group1 (?ms ! i)"] by simp
  qed
  have b: "topic (sts ! i) = []"
    if "i < length sts" "\<forall>c\<in>set (group1 (?ms ! i)). is_space c" for i
    using that n [of i] by (simp add: strip_all_space)
  show ?thesis
    using m a b by blast
qed

lemma parse_padded_record:
  "parse_ros_topic_statistics padded_record =
     Inr [\<lparr>topic = ''/a b'', message_count = 7, message_frequency = NaN\<rparr>,
          \<lparr>topic = [], message_count = 1, message_frequency = NaN\<rparr>]"
  unfolding padded_record_def by code_simp

text \<open>
  Two blocks: the name \<^verbatim>\<open>"  /a b  "\<close> gives the topic \<^verbatim>\<open>/a b\<close>, and the name of two blanks
  the empty topic.
\<close>

theorem topic_is_stripped_name_witness:
  "map (\<lambda>m. strip (group1 m)) (finditer (strip_ansi padded_record)) = [''/a b'', []]
   \<and> group1 (finditer (strip_ansi padded_record) ! 1) = ''  ''"
proof -
  have "map (\<lambda>m. strip (group1 m)) (finditer (strip_ansi padded_record)) = [''/a b'', []]"
    using topic_is_stripped_name [OF parse_padded_record] by simp
  moreover have "group1 (finditer (strip_ansi padded_record) ! 1) = ''  ''"
    unfolding padded_record_def by code_simp
  ultimately show ?thesis
    by (rule conjI)
qed

lemma match_ansi_no_esc: "esc_char \<noteq> c \<Longrightarrow> match_ansi (c # cs) = None"
  by (auto simp: match_ansi_def split: list.splits)

lemma strip_ansi_text_append: "esc_char \<notin> set t \<Longrightarrow> strip_ansi (t @ s) = t @ strip_ansi s"
  by (induction t) (simp_all add: match_ansi_no_esc)

lemma csi_rest_append:
  assumes "csi_rest body = Some []"
  shows "csi_rest (body @ r) = Some r"
proof -
  define d1 where "d1 = dropWhile is_param body"
  define d2 where "d2 = dropWhile is_inter d1"
  from assms obtain c where d2: "d2 = [c]" and c: "is_final c"
    by (auto simp: csi_rest_def d1_def d2_def split: list.splits if_splits)
  have "d1 \<noteq> []"
    using d2 by (auto simp: d2_def)
  then obtain x where "x \<in> set body" "\<not> is_param x"
    unfolding d1_def by (metis dropWhile_eq_Nil_conv)
  then have 1: "dropWhile is_param (body @ r) = d1 @ r"
    unfolding d1_def by (rule dropWhile_append1)
  have "d2 \<noteq> []"
    using d2 by simp
  then obtain y where "y \<in> set d1" "\<not> is_inter y"
    unfolding d2_def by (metis dropWhile_eq_Nil_conv)
  then have 2: "dropWhile is_inter (d1 @ r) = d2 @ r"
    unfolding d2_def by (rule dropWhile_append1)
  show ?thesis
    by (simp add: csi_rest_def 1 2 d2 c)
qed

lemma match_ansi_append: "match_ansi e = Some [] \<Longrightarrow> match_ansi (e @ r) = Some r"
  by (auto simp: match_ansi_def csi_rest_append split: list.splits if_splits)

lemma strip_ansi_escape_append:
  assumes "match_ansi e = Some []"
  shows "strip_ansi (e @ s) = strip_ansi s"
proof (cases e)
  case Nil
  then show ?thesis using assms by (simp add: match_ansi_def)
next
  case (Cons c cs)
  have "match_ansi (c # (cs @ s)) = Some s"
    using match_ansi_append [OF assms, of s] Cons by simp
  then show ?thesis
    by (simp add: Cons)
qed

lemma strip_ansi_rendered:
  "\<forall>seg\<in>set segs. well_formed seg \<Longrightarrow> strip_ansi (rendered segs) = hand_stripped segs"
  by (induction segs rule: rendered.induct)
     (simp_all add: strip_ansi_text_append strip_ansi_escape_append)

lemma hand_stripped_no_esc:
  "\<forall>seg\<in>set segs. well_formed seg \<Longrightarrow> esc_char \<notin> set (hand_stripped segs)"
  by (induction segs rule: hand_stripped.induct) simp_all

lemma strip_ansi_no_esc: "esc_char \<notin> set t \<Longrightarrow> strip_ansi t = t"
  using strip_ansi_text_append [of t "[]"] by simp

text \<open>
  Claim C8, as amended.  For a record made of text without ESC and of whole escape
  sequences: stripping removes the escape sequences and leaves the text as it is,
  stripping the result again changes nothing, and the record parses to the same result
  (the same statistics, or the same exception) as the record with the escape sequences
  left out by hand.
\<close>

theorem strip_ansi_segments:
  assumes "\<forall>seg\<in>set segs. well_formed seg"
  shows "strip_ansi (rendered segs) = hand_stripped segs
       \<and> strip_ansi (strip_ansi (rendered segs)) = strip_ansi (rendered segs)
       \<and> parse_ros_topic_statistics (rendered segs) = parse_ros_topic_statistics (hand_stripped segs)"
proof -
  have 1: "strip_ansi (rendered segs) = hand_stripped segs"
    using assms by (rule strip_ansi_rendered)
  have 2: "strip_ansi (hand_stripped segs) = hand_stripped segs"
    using assms by (intro strip_ansi_no_esc hand_stripped_no_esc)
  show ?thesis
    by (simp add: 1 2 parse_ros_topic_statistics_def)
qed

lemma coloured_record_well_formed: "\<forall>seg\<in>set coloured_record. well_formed seg"
  unfolding coloured_record_def by code_simp

lemma parse_coloured_plain:
  "parse_ros_topic_statistics (hand_stripped coloured_record) =
     Inr [\<lparr>topic = ''/a'', message_count = 7, message_frequency = NaN\<rparr>]"
  unfolding coloured_record_def by code_simp

text \<open>The coloured record parses like the plain one.\<close>

theorem strip_ansi_segments_witness:
  "parse_ros_topic_statistics (rendered coloured_record) =
     Inr [\<lparr>topic = ''/a'', message_count = 7, message_frequency = NaN\<rparr>]
   \<and> strip_ansi (strip_ansi (rendered coloured_record)) = strip_ansi (rendered coloured_record)"
proof -
  note t = strip_ansi_segments [OF coloured_record_well_formed]
  from t have "parse_ros_topic_statistics (rendered coloured_record) =
      parse_ros_topic_statistics (hand_stripped coloured_record)"
    by blast
  then have a: "parse_ros_topic_statistics (rendered coloured_record) =
      Inr [\<lparr>topic = ''/a'', message_count = 7, message_frequency = NaN\<rparr>]"
    by (simp only: parse_coloured_plain)
  from t have b: "strip_ansi (strip_ansi (rendered coloured_record)) =
      strip_ansi (rendered coloured_record)"
    by blast
  from a b show ?thesis
    by (rule conjI)
qed

text \<open>
  Claim C8 as the spec words it fails: stripping \<^verbatim>\<open>ESC ESC [ m [ m\<close> gives \<^verbatim>\<open>ESC [ m\<close>,
  and stripping that gives the empty text; and a record with this text inside a block
  parses to nothing, while the same record with the escape sequence removed parses to one
  statistic.
\<close>

theorem strip_ansi_not_idempotent_counterexample:
  "strip_ansi nested_escape = esc_char # ''[m''
   \<and> strip_ansi (strip_ansi nested_escape) = []
   \<and> parse_ros_topic_statistics nested_record = Inr []
   \<and> parse_ros_topic_statistics (strip_ansi nested_record) =
       Inr [\<lparr>topic = ''/a'', message_count = 1, message_frequency = NaN\<rparr>]"
  unfolding nested_record_def nested_escape_def by code_simp

end
